theory Spec2Isabelle
  imports Main "HOL-Library.Multiset"
begin

section \<open>JavaScript values used by the Devconnect Pretix sync service\<close>

text \<open>
  The service under study is \<^verbatim>\<open>DevconnectPretixSyncService\<close> together with the item-info
  queries it calls. Identifiers are JavaScript numbers holding integers; they are modelled
  as \<^typ>\<open>int\<close>, and \<^verbatim>\<open>Number.prototype.toString\<close> on them is the decimal rendering.
  Strings are \<^typ>\<open>string\<close>; \<^verbatim>\<open>String.prototype.toLowerCase\<close> is modelled on the
  ASCII letters (characters outside \<^verbatim>\<open>A-Z\<close> are left as they are).
\<close>

fun digitsOfNat :: "nat \<Rightarrow> string" where
  "digitsOfNat n =
     (if n < 10 then [''0123456789'' ! n]
      else digitsOfNat (n div 10) @ [''0123456789'' ! (n mod 10)])"

declare digitsOfNat.simps [simp del]

definition toString :: "int \<Rightarrow> string" where
  "toString i = (if i < 0 then CHR ''-'' # digitsOfNat (nat (- i)) else digitsOfNat (nat i))"

definition toLowerChar :: "char \<Rightarrow> char" where
  "toLowerChar c =
     (case map_of (zip ''ABCDEFGHIJKLMNOPQRSTUVWXYZ'' ''abcdefghijklmnopqrstuvwxyz'') c of
        Some l \<Rightarrow> l
      | None \<Rightarrow> c)"

definition toLowerCase :: "string \<Rightarrow> string" where
  "toLowerCase s = map toLowerChar s"

text \<open>
  \<^verbatim>\<open>new Map(entries)\<close>: a later entry with the same key replaces an earlier one.
  \<^verbatim>\<open>m.has(k)\<close> is \<open>has m k\<close>, \<^verbatim>\<open>m.get(k)\<close> is \<open>m k\<close> (\<open>None\<close> for \<^verbatim>\<open>undefined\<close>).
\<close>

definition newMap :: "('k \<times> 'v) list \<Rightarrow> ('k \<rightharpoonup> 'v)" where
  "newMap entries = map_of (rev entries)"

definition has :: "('k \<rightharpoonup> 'v) \<Rightarrow> 'k \<Rightarrow> bool" where
  "has m k = (m k \<noteq> None)"

text \<open>
  Truthiness of an optional string: \<^verbatim>\<open>null\<close>, \<^verbatim>\<open>undefined\<close> and the empty string are
  falsy. \<open>orElse a b\<close> is \<^verbatim>\<open>a || b\<close>.
\<close>

definition truthy :: "string option \<Rightarrow> bool" where
  "truthy a = (case a of None \<Rightarrow> False | Some s \<Rightarrow> s \<noteq> [])"

definition orElse :: "string option \<Rightarrow> string \<Rightarrow> string" where
  "orElse a b = (if truthy a then the a else b)"

section \<open>Data model\<close>

text \<open>
  Modelled from the spec: the declarations of the API types (\<^verbatim>\<open>DevconnectPretixItem\<close>,
  \<^verbatim>\<open>DevconnectPretixEvent\<close>, \<^verbatim>\<open>DevconnectPretixOrder\<close>, the configuration types) and of
  the row types (\<^verbatim>\<open>PretixItemInfo\<close>, \<^verbatim>\<open>DevconnectPretixTicket\<close>) are missing. The
  records below carry the fields the service reads and writes, with the types of the
  spec's interfaces: attendee name and attendee email are optional, the purchaser email
  is not. A field called \<^verbatim>\<open>id\<close> in the source is renamed, since records share one
  name space.
\<close>

record DevconnectPretixItem =
  api_item_id :: int
  name_en :: string

record DevconnectPretixEvent =
  slug :: string
  event_name_en :: string

record DevconnectPretixPosition =
  positionid :: int
  item :: int
  attendee_name :: "string option"
  attendee_email :: "string option"

record DevconnectPretixOrder =
  code :: string
  status :: string
  order_email :: string
  positions :: "DevconnectPretixPosition list"

record DevconnectPretixEventConfig =
  config_id :: int
  eventID :: string
  activeItemIDs :: "string list"

record DevconnectPretixOrganizerConfig =
  organizer_id :: int
  orgURL :: string
  token :: string
  events :: "DevconnectPretixEventConfig list"

record PretixEventInfo =
  event_info_id :: int
  pretix_events_config_id :: int
  event_name :: string

record PretixItemInfo =
  info_id :: int
  item_id :: string
  devconnect_pretix_events_info_id :: int
  item_name :: string

record DevconnectPretixTicket =
  email :: string
  full_name :: "string option"
  devconnect_pretix_items_info_id :: int
  is_deleted :: bool

text \<open>
  A thrown JavaScript error. Every \<^verbatim>\<open>catch\<close> of the service discards the error after
  logging it, so only its message is kept.
\<close>

datatype exn = Error string

text \<open>
  The Pretix API client (\<^verbatim>\<open>IDevconnectPretixAPI\<close>): each fetch takes the organizer URL,
  the token and the event id, and either throws or returns.
\<close>

record IDevconnectPretixAPI =
  fetchEvent :: "string \<Rightarrow> string \<Rightarrow> string \<Rightarrow> exn + DevconnectPretixEvent"
  fetchItems :: "string \<Rightarrow> string \<Rightarrow> string \<Rightarrow> exn + DevconnectPretixItem list"
  fetchOrders :: "string \<Rightarrow> string \<Rightarrow> string \<Rightarrow> exn + DevconnectPretixOrder list"

text \<open>
  The database: the three tables, in row order, and the two serial counters that give
  an inserted event-info or item-info row its \<^verbatim>\<open>id\<close> (the column default of the schema).
  Statements are taken to succeed; a failing connection is outside the model.
\<close>

record db =
  events_info :: "PretixEventInfo list"
  items_info :: "PretixItemInfo list"
  tickets :: "DevconnectPretixTicket list"
  next_event_info_id :: int
  next_item_info_id :: int

text \<open>
  What one phase does to the outside world, in order: the API calls it makes and the
  write statements it issues.
\<close>

datatype effect =
    ApiFetchEvent string string string
  | ApiFetchItems string string string
  | ApiFetchOrders string string string
  | InsertEventsInfo string int
  | UpdateEventsInfo int string
  | InsertItemsInfo string int string
  | UpdateItemsInfo int string
  | DeleteItemInfo int
  | InsertTicket DevconnectPretixTicket
  | UpdateTicket DevconnectPretixTicket
  | SoftDeleteTicket DevconnectPretixTicket

fun isWrite :: "effect \<Rightarrow> bool" where
  "isWrite (ApiFetchEvent _ _ _) = False"
| "isWrite (ApiFetchItems _ _ _) = False"
| "isWrite (ApiFetchOrders _ _ _) = False"
| "isWrite _ = True"

fun isItemWrite :: "effect \<Rightarrow> bool" where
  "isItemWrite (InsertItemsInfo _ _ _) = True"
| "isItemWrite (UpdateItemsInfo _ _) = True"
| "isItemWrite (DeleteItemInfo _) = True"
| "isItemWrite _ = False"

fun isEventWrite :: "effect \<Rightarrow> bool" where
  "isEventWrite (InsertEventsInfo _ _) = True"
| "isEventWrite (UpdateEventsInfo _ _) = True"
| "isEventWrite _ = False"

fun isTicketPhase :: "effect \<Rightarrow> bool" where
  "isTicketPhase (ApiFetchOrders _ _ _) = True"
| "isTicketPhase (InsertTicket _) = True"
| "isTicketPhase (UpdateTicket _) = True"
| "isTicketPhase (SoftDeleteTicket _) = True"
| "isTicketPhase _ = False"

section \<open>Item-info queries (\<^verbatim>\<open>database/queries/pretixItemInfo\<close>)\<close>

text \<open>\<^verbatim>\<open>select * from devconnect_pretix_items_info where devconnect_pretix_events_info_id = $1\<close>\<close>

definition fetchPretixItemsInfoByEvent :: "db \<Rightarrow> int \<Rightarrow> PretixItemInfo list" where
  "fetchPretixItemsInfoByEvent d eventConfigID =
     filter (\<lambda>r. devconnect_pretix_events_info_id r = eventConfigID) (items_info d)"

text \<open>
  \<^verbatim>\<open>insert into devconnect_pretix_items_info (item_id, devconnect_pretix_events_info_id, item_name)
  values ($1, $2, $3)\<close>
\<close>

definition insertPretixItemsInfo :: "string \<Rightarrow> int \<Rightarrow> string \<Rightarrow> db \<Rightarrow> db" where
  "insertPretixItemsInfo itemId event_config_id itemName d =
     d\<lparr>items_info := items_info d @
          [\<lparr>info_id = next_item_info_id d, item_id = itemId,
            devconnect_pretix_events_info_id = event_config_id, item_name = itemName\<rparr>],
       next_item_info_id := next_item_info_id d + 1\<rparr>"

text \<open>\<^verbatim>\<open>update devconnect_pretix_items_info set item_name = $1 where id=$2\<close>\<close>

definition updatePretixItemsInfo :: "int \<Rightarrow> string \<Rightarrow> db \<Rightarrow> db" where
  "updatePretixItemsInfo rid itemName d =
     d\<lparr>items_info :=
          map (\<lambda>r. if info_id r = rid then r\<lparr>item_name := itemName\<rparr> else r) (items_info d)\<rparr>"

text \<open>\<^verbatim>\<open>delete from devconnect_pretix_items_info where id=$1\<close>\<close>

definition deletePretixItemInfo :: "int \<Rightarrow> db \<Rightarrow> db" where
  "deletePretixItemInfo rid d =
     d\<lparr>items_info := filter (\<lambda>r. info_id r \<noteq> rid) (items_info d)\<rparr>"

section \<open>Event-info queries\<close>

text \<open>
  The module \<^verbatim>\<open>database/queries/pretixEventInfo\<close> is not part of the sources under study. The
  spec describes the persistence gateway as simple fetch, insert and update over the
  event-info table, keyed by local identifiers.
\<close>

text \<open>
  Modelled from the spec: \<^verbatim>\<open>fetchPretixEventInfo\<close> is missing; it returns the local
  record of the event configuration if there is one.
\<close>

definition fetchPretixEventInfo :: "db \<Rightarrow> int \<Rightarrow> PretixEventInfo option" where
  "fetchPretixEventInfo d eventConfigID =
     find (\<lambda>r. pretix_events_config_id r = eventConfigID) (events_info d)"

text \<open>
  Modelled from the spec: \<^verbatim>\<open>insertPretixEventsInfo\<close> is missing; it adds a record with
  the fetched name for the event configuration.
\<close>

definition insertPretixEventsInfo :: "string \<Rightarrow> int \<Rightarrow> db \<Rightarrow> db" where
  "insertPretixEventsInfo eventName eventConfigID d =
     d\<lparr>events_info := events_info d @
          [\<lparr>event_info_id = next_event_info_id d, pretix_events_config_id = eventConfigID,
            event_name = eventName\<rparr>],
       next_event_info_id := next_event_info_id d + 1\<rparr>"

text \<open>
  Modelled from the spec: \<^verbatim>\<open>updatePretixEventsInfo\<close> is missing; it sets the name of the
  record with the given local id.
\<close>

definition updatePretixEventsInfo :: "int \<Rightarrow> string \<Rightarrow> db \<Rightarrow> db" where
  "updatePretixEventsInfo rid eventName d =
     d\<lparr>events_info :=
          map (\<lambda>r. if event_info_id r = rid then r\<lparr>event_name := eventName\<rparr> else r)
            (events_info d)\<rparr>"

section \<open>The event metadata phase: \<^verbatim>\<open>saveEventInfo\<close>\<close>

text \<open>
  Each phase returns whether it succeeded, the database after it, and its effects.
  A thrown fetch is caught by the phase, which then returns \<^verbatim>\<open>false\<close>.
\<close>

definition saveEventInfo ::
  "IDevconnectPretixAPI \<Rightarrow> DevconnectPretixOrganizerConfig \<Rightarrow> DevconnectPretixEventConfig \<Rightarrow>
     db \<Rightarrow> bool \<times> db \<times> effect list" where
  "saveEventInfo api organizer event d =
     (let call = ApiFetchEvent (orgURL organizer) (token organizer) (eventID event) in
      case fetchEvent api (orgURL organizer) (token organizer) (eventID event) of
        Inl e \<Rightarrow> (False, d, [call])
      | Inr fetched \<Rightarrow>
          (let eventNameFromAPI = event_name_en fetched in
           case fetchPretixEventInfo d (config_id event) of
             None \<Rightarrow>
               (True, insertPretixEventsInfo eventNameFromAPI (config_id event) d,
                [call, InsertEventsInfo eventNameFromAPI (config_id event)])
           | Some existingEvent \<Rightarrow>
               (True, updatePretixEventsInfo (event_info_id existingEvent) eventNameFromAPI d,
                [call, UpdateEventsInfo (event_info_id existingEvent) eventNameFromAPI])))"

section \<open>The item catalog phase: \<^verbatim>\<open>saveItemsInfo\<close>\<close>

text \<open>
  The three lists the phase computes from the active items of the fetched catalog and
  the rows stored for the event. \<open>itemKey\<close> is \<^verbatim>\<open>i.id.toString()\<close>.
\<close>

definition itemKey :: "DevconnectPretixItem \<Rightarrow> string" where
  "itemKey i = toString (api_item_id i)"

definition existingItemsInfoByItemID ::
  "PretixItemInfo list \<Rightarrow> (string \<rightharpoonup> PretixItemInfo)" where
  "existingItemsInfoByItemID existingItemsInfo = newMap (map (\<lambda>i. (item_id i, i)) existingItemsInfo)"

definition newActiveItemsByItemID ::
  "DevconnectPretixItem list \<Rightarrow> (string \<rightharpoonup> DevconnectPretixItem)" where
  "newActiveItemsByItemID newActiveItems = newMap (map (\<lambda>i. (itemKey i, i)) newActiveItems)"

definition itemsToInsert ::
  "PretixItemInfo list \<Rightarrow> DevconnectPretixItem list \<Rightarrow> DevconnectPretixItem list" where
  "itemsToInsert existingItemsInfo newActiveItems =
     filter (\<lambda>i. \<not> has (existingItemsInfoByItemID existingItemsInfo) (itemKey i)) newActiveItems"

definition itemsToUpdate ::
  "PretixItemInfo list \<Rightarrow> DevconnectPretixItem list \<Rightarrow> DevconnectPretixItem list" where
  "itemsToUpdate existingItemsInfo newActiveItems =
     filter (\<lambda>i. item_name (the (existingItemsInfoByItemID existingItemsInfo (itemKey i))) \<noteq> name_en i)
       (filter (\<lambda>i. has (existingItemsInfoByItemID existingItemsInfo) (itemKey i)) newActiveItems)"

definition itemsToRemove ::
  "PretixItemInfo list \<Rightarrow> DevconnectPretixItem list \<Rightarrow> PretixItemInfo list" where
  "itemsToRemove existingItemsInfo newActiveItems =
     filter (\<lambda>existing. \<not> has (newActiveItemsByItemID newActiveItems) (item_id existing))
       existingItemsInfo"

text \<open>
  The row an item to update is paired with: \<^verbatim>\<open>existingItemsInfoByItemID.get(item.id.toString())!\<close>.
\<close>

definition oldItem :: "PretixItemInfo list \<Rightarrow> DevconnectPretixItem \<Rightarrow> PretixItemInfo" where
  "oldItem existingItemsInfo i = the (existingItemsInfoByItemID existingItemsInfo (itemKey i))"

definition saveItemsInfo ::
  "IDevconnectPretixAPI \<Rightarrow> DevconnectPretixOrganizerConfig \<Rightarrow> DevconnectPretixEventConfig \<Rightarrow>
     db \<Rightarrow> bool \<times> db \<times> effect list" where
  "saveItemsInfo api organizer event d =
     (let call = ApiFetchItems (orgURL organizer) (token organizer) (eventID event);
          eventConfigID = config_id event in
      case fetchItems api (orgURL organizer) (token organizer) (eventID event) of
        Inl e \<Rightarrow> (False, d, [call])
      | Inr itemsFromAPI \<Rightarrow>
          (let newItemIDsSet = set (map itemKey itemsFromAPI);
               activeItemIDsSet = set (activeItemIDs event) in
           if list_ex (\<lambda>i. i \<notin> newItemIDsSet) (activeItemIDs event) then (False, d, [call])
           else
             (let newActiveItems = filter (\<lambda>i. itemKey i \<in> activeItemIDsSet) itemsFromAPI;
                  existingItemsInfo = fetchPretixItemsInfoByEvent d eventConfigID;
                  toInsert = itemsToInsert existingItemsInfo newActiveItems;
                  d1 = fold (\<lambda>i. insertPretixItemsInfo (itemKey i) eventConfigID (name_en i))
                         toInsert d;
                  toUpdate = itemsToUpdate existingItemsInfo newActiveItems;
                  d2 = fold (\<lambda>i. updatePretixItemsInfo (info_id (oldItem existingItemsInfo i))
                                (name_en i))
                         toUpdate d1;
                  toRemove = itemsToRemove existingItemsInfo newActiveItems;
                  d3 = fold (\<lambda>r. deletePretixItemInfo (info_id r)) toRemove d2
              in (True, d3,
                  call #
                  map (\<lambda>i. InsertItemsInfo (itemKey i) eventConfigID (name_en i)) toInsert @
                  map (\<lambda>i. UpdateItemsInfo (info_id (oldItem existingItemsInfo i)) (name_en i))
                    toUpdate @
                  map (\<lambda>r. DeleteItemInfo (info_id r)) toRemove))))"

section \<open>Ticket queries and ticket helpers\<close>

text \<open>
  The module \<^verbatim>\<open>util/devconnectTicket\<close> and the ticket queries under
  \<^verbatim>\<open>database/queries/devconnect_pretix_tickets\<close> are not part of the sources under study.
\<close>

text \<open>
  Modelled from the spec: \<^verbatim>\<open>getEmailAndItemKey\<close> is missing; by the spec a ticket's
  identity is the pair (normalized email, owning item).
\<close>

definition getEmailAndItemKey :: "DevconnectPretixTicket \<Rightarrow> string \<times> int" where
  "getEmailAndItemKey t = (email t, devconnect_pretix_items_info_id t)"

text \<open>
  Modelled from the spec: \<^verbatim>\<open>pretixTicketsDifferent\<close> is missing; by the spec an update is
  due when the full name or the owning item differs.
\<close>

definition pretixTicketsDifferent :: "DevconnectPretixTicket \<Rightarrow> DevconnectPretixTicket \<Rightarrow> bool" where
  "pretixTicketsDifferent oldTicket newTicket =
     (full_name oldTicket \<noteq> full_name newTicket \<or>
      devconnect_pretix_items_info_id oldTicket \<noteq> devconnect_pretix_items_info_id newTicket)"

text \<open>
  Modelled from the spec: \<^verbatim>\<open>ticketsToMapByEmailAndItem\<close> is missing; it is the map from
  the key of a ticket to the ticket (the phase calls \<^verbatim>\<open>has\<close> and \<^verbatim>\<open>get\<close> on it).
\<close>

definition ticketsToMapByEmailAndItem ::
  "DevconnectPretixTicket list \<Rightarrow> (string \<times> int \<rightharpoonup> DevconnectPretixTicket)" where
  "ticketsToMapByEmailAndItem ts = newMap (map (\<lambda>t. (getEmailAndItemKey t, t)) ts)"

text \<open>
  Modelled from the spec: \<^verbatim>\<open>fetchDevconnectPretixTicketsByEvent\<close> is missing; by the
  spec the change-set is computed against the non-deleted tickets of the event, and a
  ticket belongs to an event through its owning item.
\<close>

definition fetchDevconnectPretixTicketsByEvent :: "db \<Rightarrow> int \<Rightarrow> DevconnectPretixTicket list" where
  "fetchDevconnectPretixTicketsByEvent d eventConfigID =
     filter (\<lambda>t. \<not> is_deleted t \<and>
                 devconnect_pretix_items_info_id t \<in>
                   set (map info_id (fetchPretixItemsInfoByEvent d eventConfigID)))
       (tickets d)"

text \<open>
  Modelled from the spec: \<^verbatim>\<open>insertDevconnectPretixTicket\<close> is missing; by the spec the
  gateway is simple CRUD, so the insert adds the row.
\<close>

definition insertDevconnectPretixTicket :: "DevconnectPretixTicket \<Rightarrow> db \<Rightarrow> db" where
  "insertDevconnectPretixTicket t d = d\<lparr>tickets := tickets d @ [t]\<rparr>"

text \<open>
  Modelled from the spec: \<^verbatim>\<open>updateDevconnectPretixTicket\<close> is missing; it is called with
  the projected ticket, and by the spec a ticket row stores no identifier of its own and
  is addressed by (email, owning item): the rows with that key take the full name.
\<close>

definition updateDevconnectPretixTicket :: "DevconnectPretixTicket \<Rightarrow> db \<Rightarrow> db" where
  "updateDevconnectPretixTicket t d =
     d\<lparr>tickets :=
          map (\<lambda>r. if getEmailAndItemKey r = getEmailAndItemKey t
                    then r\<lparr>full_name := full_name t\<rparr> else r)
            (tickets d)\<rparr>"

text \<open>
  Modelled from the spec: \<^verbatim>\<open>softDeleteDevconnectPretixTicket\<close> is missing; by the spec a
  soft-delete sets the flag and keeps the row.
\<close>

definition softDeleteDevconnectPretixTicket :: "DevconnectPretixTicket \<Rightarrow> db \<Rightarrow> db" where
  "softDeleteDevconnectPretixTicket t d =
     d\<lparr>tickets :=
          map (\<lambda>r. if getEmailAndItemKey r = getEmailAndItemKey t
                    then r\<lparr>is_deleted := True\<rparr> else r)
            (tickets d)\<rparr>"

section \<open>Ticket projection: \<^verbatim>\<open>ordersToDevconnectTickets\<close>\<close>

text \<open>
  The one \<^verbatim>\<open>logger\<close> call of the projection is kept as an output next to the tickets:
  the order code and the position id of a position without attendee email.
\<close>

datatype log_entry = PositionWithoutAttendeeEmail string int

text \<open>The inner loop, over the positions of one paid order, pushing onto \<^verbatim>\<open>tickets\<close>.\<close>

fun positionsLoop ::
  "(string \<rightharpoonup> PretixItemInfo) \<Rightarrow> DevconnectPretixOrder \<Rightarrow> DevconnectPretixPosition list \<Rightarrow>
     DevconnectPretixTicket list \<times> log_entry list \<Rightarrow> DevconnectPretixTicket list \<times> log_entry list" where
  "positionsLoop itemsInfoByItemID order [] acc = acc"
| "positionsLoop itemsInfoByItemID order (p # ps) (tks, logs) =
     (case itemsInfoByItemID (toString (item p)) of
        None \<Rightarrow> positionsLoop itemsInfoByItemID order ps (tks, logs)
      | Some existingItem \<Rightarrow>
          positionsLoop itemsInfoByItemID order ps
            (tks @ [\<lparr>email = toLowerCase (orElse (attendee_email p) (order_email order)),
                      full_name = attendee_name p,
                      devconnect_pretix_items_info_id = info_id existingItem,
                      is_deleted = False\<rparr>],
             if \<not> truthy (attendee_email p)
             then logs @ [PositionWithoutAttendeeEmail (code order) (positionid p)]
             else logs))"

text \<open>The outer loop, over the orders.\<close>

fun ordersLoop ::
  "(string \<rightharpoonup> PretixItemInfo) \<Rightarrow> DevconnectPretixOrder list \<Rightarrow>
     DevconnectPretixTicket list \<times> log_entry list \<Rightarrow> DevconnectPretixTicket list \<times> log_entry list" where
  "ordersLoop itemsInfoByItemID [] acc = acc"
| "ordersLoop itemsInfoByItemID (order # orders) acc =
     (if status order \<noteq> ''p'' then ordersLoop itemsInfoByItemID orders acc
      else ordersLoop itemsInfoByItemID orders
             (positionsLoop itemsInfoByItemID order (positions order) acc))"

definition itemsInfoByItemID :: "PretixItemInfo list \<Rightarrow> (string \<rightharpoonup> PretixItemInfo)" where
  "itemsInfoByItemID itemsInfo = newMap (map (\<lambda>i. (item_id i, i)) itemsInfo)"

definition ordersToDevconnectTickets ::
  "DevconnectPretixOrder list \<Rightarrow> PretixItemInfo list \<Rightarrow>
     DevconnectPretixTicket list \<times> log_entry list" where
  "ordersToDevconnectTickets orders itemsInfo =
     ordersLoop (itemsInfoByItemID itemsInfo) orders ([], [])"

section \<open>The ticket phase: \<^verbatim>\<open>saveTickets\<close>\<close>

definition newTickets ::
  "DevconnectPretixTicket list \<Rightarrow> DevconnectPretixTicket list \<Rightarrow> DevconnectPretixTicket list" where
  "newTickets existingTickets tks =
     filter (\<lambda>t. \<not> has (ticketsToMapByEmailAndItem existingTickets) (getEmailAndItemKey t)) tks"

definition updatedTickets ::
  "DevconnectPretixTicket list \<Rightarrow> DevconnectPretixTicket list \<Rightarrow> DevconnectPretixTicket list" where
  "updatedTickets existingTickets tks =
     filter (\<lambda>t. pretixTicketsDifferent
                   (the (ticketsToMapByEmailAndItem existingTickets (getEmailAndItemKey t))) t)
       (filter (\<lambda>t. has (ticketsToMapByEmailAndItem existingTickets) (getEmailAndItemKey t)) tks)"

definition removedTickets ::
  "DevconnectPretixTicket list \<Rightarrow> DevconnectPretixTicket list \<Rightarrow> DevconnectPretixTicket list" where
  "removedTickets existingTickets tks =
     filter (\<lambda>existing. \<not> has (ticketsToMapByEmailAndItem tks) (getEmailAndItemKey existing))
       existingTickets"

text \<open>
  The ticket an updated ticket is paired with (only logged by the phase):
  \<^verbatim>\<open>existingTicketsByEmailAndItem.get(getEmailAndItemKey(updatedTicket))\<close>.
\<close>

definition oldTicket ::
  "DevconnectPretixTicket list \<Rightarrow> DevconnectPretixTicket \<Rightarrow> DevconnectPretixTicket option" where
  "oldTicket existingTickets t = ticketsToMapByEmailAndItem existingTickets (getEmailAndItemKey t)"

definition saveTickets ::
  "IDevconnectPretixAPI \<Rightarrow> DevconnectPretixOrganizerConfig \<Rightarrow> DevconnectPretixEventConfig \<Rightarrow>
     db \<Rightarrow> bool \<times> db \<times> effect list" where
  "saveTickets api organizer event d =
     (let call = ApiFetchOrders (orgURL organizer) (token organizer) (eventID event);
          eventConfigID = config_id event in
      case fetchOrders api (orgURL organizer) (token organizer) (eventID event) of
        Inl e \<Rightarrow> (False, d, [call])
      | Inr pretixOrders \<Rightarrow>
          (let updatedItemsInfo = fetchPretixItemsInfoByEvent d eventConfigID;
               tks = fst (ordersToDevconnectTickets pretixOrders updatedItemsInfo);
               existingTickets = fetchDevconnectPretixTicketsByEvent d eventConfigID;
               toInsert = newTickets existingTickets tks;
               d1 = fold insertDevconnectPretixTicket toInsert d;
               toUpdate = updatedTickets existingTickets tks;
               d2 = fold updateDevconnectPretixTicket toUpdate d1;
               toRemove = removedTickets existingTickets tks;
               d3 = fold softDeleteDevconnectPretixTicket toRemove d2
           in (True, d3,
               call # map InsertTicket toInsert @ map UpdateTicket toUpdate @
               map SoftDeleteTicket toRemove)))"

section \<open>One organizer and event: \<^verbatim>\<open>syncAllPretixForOrganizerAndEvent\<close>\<close>

definition syncAllPretixForOrganizerAndEvent ::
  "IDevconnectPretixAPI \<Rightarrow> DevconnectPretixOrganizerConfig \<Rightarrow> DevconnectPretixEventConfig \<Rightarrow>
     db \<Rightarrow> db \<times> effect list" where
  "syncAllPretixForOrganizerAndEvent api organizer event d =
     (case saveEventInfo api organizer event d of
        (ok1, d1, fx1) \<Rightarrow>
          if \<not> ok1 then (d1, fx1)
          else
            (case saveItemsInfo api organizer event d1 of
               (ok2, d2, fx2) \<Rightarrow>
                 if \<not> ok2 then (d2, fx1 @ fx2)
                 else
                   (case saveTickets api organizer event d2 of
                      (ok3, d3, fx3) \<Rightarrow> (d3, fx1 @ fx2 @ fx3))))"

section \<open>The sync scheduler: \<^verbatim>\<open>startSyncLoop\<close> and \<^verbatim>\<open>stop\<close>\<close>

text \<open>
  The service runs on the single-threaded event loop, so its executions are interleavings
  of four atomic events. \<open>timeout\<close> is the field \<^verbatim>\<open>this.timeout\<close> (the handle of the
  timer created last, never reset), \<open>pending\<close> are the timers that are armed (created,
  neither fired nor cleared), \<open>in_flight\<close> counts the loop bodies that are waiting for
  \<^verbatim>\<open>await this.trySync()\<close>, and \<open>cycles_started\<close> counts the sync cycles begun so far.
  \<^item> \<open>StartSyncLoop\<close>: the call \<^verbatim>\<open>trySync()\<close> begins a cycle at once.
  \<^item> \<open>CycleSettles\<close>: a cycle in flight ends (\<^verbatim>\<open>this.trySync()\<close> never throws), and the loop
    body runs \<^verbatim>\<open>this.timeout = setTimeout(() => trySync(), 1000 * 60)\<close>.
  \<^item> \<open>TimerFires h\<close>: the armed timer \<open>h\<close> fires and calls \<^verbatim>\<open>trySync()\<close>, beginning a cycle.
  \<^item> \<open>Stop\<close>: \<^verbatim>\<open>if (this.timeout) clearTimeout(this.timeout)\<close>; clearing a handle that has
    fired already changes nothing.
  An event that cannot happen in a state (no cycle in flight, timer not armed) gives \<open>None\<close>.
\<close>

record scheduler =
  timeout :: "nat option"
  pending :: "nat set"
  in_flight :: nat
  next_handle :: nat
  cycles_started :: nat

datatype sched_event = StartSyncLoop | Stop | CycleSettles | TimerFires nat

definition newService :: scheduler where
  "newService = \<lparr>timeout = None, pending = {}, in_flight = 0, next_handle = 0, cycles_started = 0\<rparr>"

fun sched_step :: "sched_event \<Rightarrow> scheduler \<Rightarrow> scheduler option" where
  "sched_step StartSyncLoop s =
     Some (s\<lparr>in_flight := in_flight s + 1, cycles_started := cycles_started s + 1\<rparr>)"
| "sched_step CycleSettles s =
     (if in_flight s = 0 then None
      else Some (s\<lparr>in_flight := in_flight s - 1,
                   timeout := Some (next_handle s),
                   pending := insert (next_handle s) (pending s),
                   next_handle := next_handle s + 1\<rparr>))"
| "sched_step (TimerFires h) s =
     (if h \<in> pending s
      then Some (s\<lparr>pending := pending s - {h},
                   in_flight := in_flight s + 1, cycles_started := cycles_started s + 1\<rparr>)
      else None)"
| "sched_step Stop s =
     (case timeout s of
        None \<Rightarrow> Some s
      | Some h \<Rightarrow> Some (s\<lparr>pending := pending s - {h}\<rparr>))"

fun sched_run :: "sched_event list \<Rightarrow> scheduler \<Rightarrow> scheduler option" where
  "sched_run [] s = Some s"
| "sched_run (e # es) s = (case sched_step e s of None \<Rightarrow> None | Some s' \<Rightarrow> sched_run es s')"

section \<open>The invariant of the ticket table\<close>

text \<open>
  At most one non-deleted ticket per (email, owning item) and event: the non-deleted
  tickets of the event have pairwise distinct keys.
\<close>

definition ticketInvariant :: "db \<Rightarrow> int \<Rightarrow> bool" where
  "ticketInvariant d eventConfigID =
     distinct (map getEmailAndItemKey (fetchDevconnectPretixTicketsByEvent d eventConfigID))"

section \<open>Auxiliary definitions for the proofs\<close>

text \<open>What the projection loops add for one position and for one order.\<close>

definition positionOut ::
  "(string \<rightharpoonup> PretixItemInfo) \<Rightarrow> DevconnectPretixOrder \<Rightarrow> DevconnectPretixPosition \<Rightarrow>
     DevconnectPretixTicket list \<times> log_entry list" where
  "positionOut m order p = positionsLoop m order [p] ([], [])"

definition orderOut ::
  "(string \<rightharpoonup> PretixItemInfo) \<Rightarrow> DevconnectPretixOrder \<Rightarrow>
     DevconnectPretixTicket list \<times> log_entry list" where
  "orderOut m order = ordersLoop m [order] ([], [])"

text \<open>
  The predicate of the ticket fetch on a row, and what the update loop and the soft-delete
  loop of the ticket phase do to one row of the ticket table.
\<close>

definition inEvent :: "PretixItemInfo list \<Rightarrow> DevconnectPretixTicket \<Rightarrow> bool" where
  "inEvent items t =
     (\<not> is_deleted t \<and> devconnect_pretix_items_info_id t \<in> set (map info_id items))"

definition updateRows :: "DevconnectPretixTicket list \<Rightarrow> DevconnectPretixTicket \<Rightarrow> DevconnectPretixTicket" where
  "updateRows us r =
     fold (\<lambda>u r. if getEmailAndItemKey r = getEmailAndItemKey u
                  then r\<lparr>full_name := full_name u\<rparr> else r) us r"

definition softDeleteRows :: "DevconnectPretixTicket list \<Rightarrow> DevconnectPretixTicket \<Rightarrow> DevconnectPretixTicket" where
  "softDeleteRows xs r =
     (if getEmailAndItemKey r \<in> getEmailAndItemKey ` set xs then r\<lparr>is_deleted := True\<rparr> else r)"

text \<open>Example data: one event configuration with a stored item, and a client returning fixed data.\<close>

definition exItems :: "PretixItemInfo list" where
  "exItems = [\<lparr>info_id = 7, item_id = ''1'', devconnect_pretix_events_info_id = 1,
               item_name = ''GA''\<rparr>]"

definition exPosition :: "int \<Rightarrow> string option \<Rightarrow> string \<Rightarrow> DevconnectPretixPosition" where
  "exPosition itm mail nm =
     \<lparr>positionid = 3, item = itm, attendee_name = Some nm, attendee_email = mail\<rparr>"

definition exOrder :: "string \<Rightarrow> DevconnectPretixPosition list \<Rightarrow> DevconnectPretixOrder" where
  "exOrder st ps = \<lparr>code = ''A1B2'', status = st, order_email = ''Buyer@Y.com'', positions = ps\<rparr>"

definition exApi ::
  "string \<Rightarrow> DevconnectPretixItem list \<Rightarrow> DevconnectPretixOrder list \<Rightarrow> IDevconnectPretixAPI" where
  "exApi nm catalog orders =
     \<lparr>fetchEvent = (\<lambda>_ _ _. Inr \<lparr>slug = ''event-a'', event_name_en = nm\<rparr>),
       fetchItems = (\<lambda>_ _ _. Inr catalog),
       fetchOrders = (\<lambda>_ _ _. Inr orders)\<rparr>"

definition exEvent :: "string list \<Rightarrow> DevconnectPretixEventConfig" where
  "exEvent active = \<lparr>config_id = 1, eventID = ''event-a'', activeItemIDs = active\<rparr>"

definition exOrganizer :: DevconnectPretixOrganizerConfig where
  "exOrganizer = \<lparr>organizer_id = 1, orgURL = ''organizer-url'', token = ''token'',
                   events = [exEvent [''1'']]\<rparr>"

definition exCatalog :: "DevconnectPretixItem list" where
  "exCatalog = [\<lparr>api_item_id = 1, name_en = ''GA''\<rparr>, \<lparr>api_item_id = 2, name_en = ''VIP''\<rparr>]"

definition exDb :: "DevconnectPretixTicket list \<Rightarrow> db" where
  "exDb tks =
     \<lparr>events_info = [\<lparr>event_info_id = 5, pretix_events_config_id = 1, event_name = ''Devconnect''\<rparr>],
       items_info = exItems, tickets = tks, next_event_info_id = 6, next_item_info_id = 8\<rparr>"



definition exTicket :: "string \<Rightarrow> string \<Rightarrow> DevconnectPretixTicket" where
  "exTicket mail nm =
     \<lparr>email = mail, full_name = Some nm, devconnect_pretix_items_info_id = 7, is_deleted = False\<rparr>"

lemmas ex_defs = exItems_def exPosition_def exOrder_def exApi_def exEvent_def exOrganizer_def
  exCatalog_def exDb_def

lemmas projection_defs = ordersToDevconnectTickets_def itemsInfoByItemID_def newMap_def
  toString_def digitsOfNat.simps toLowerCase_def toLowerChar_def orElse_def truthy_def

section \<open>Properties of the projection\<close>


lemma positionsLoop_acc:
  "positionsLoop m order ps (tks, logs) =
     (tks @ concat (map (\<lambda>p. fst (positionOut m order p)) ps),
      logs @ concat (map (\<lambda>p. snd (positionOut m order p)) ps))"
  by (induction ps arbitrary: tks logs) (auto simp: positionOut_def split: option.splits)

lemma ordersLoop_acc:
  "ordersLoop m orders (tks, logs) =
     (tks @ concat (map (\<lambda>order. fst (orderOut m order)) orders),
      logs @ concat (map (\<lambda>order. snd (orderOut m order)) orders))"
  by (induction orders arbitrary: tks logs) (auto simp: orderOut_def positionsLoop_acc)

lemma projection_concat:
  "ordersToDevconnectTickets orders itemsInfo =
     (concat (map (\<lambda>order. fst (orderOut (itemsInfoByItemID itemsInfo) order)) orders),
      concat (map (\<lambda>order. snd (orderOut (itemsInfoByItemID itemsInfo) order)) orders))"
  by (simp add: ordersToDevconnectTickets_def ordersLoop_acc)

lemma orderOut_unpaid: "status order \<noteq> ''p'' \<Longrightarrow> orderOut m order = ([], [])"
  by (simp add: orderOut_def)

lemma orderOut_paid:
  "status order = ''p'' \<Longrightarrow>
   orderOut m order =
     (concat (map (\<lambda>p. fst (positionOut m order p)) (positions order)),
      concat (map (\<lambda>p. snd (positionOut m order p)) (positions order)))"
  by (simp add: orderOut_def positionsLoop_acc)

lemma positionOut_positions_update [simp]:
  "positionOut m (order\<lparr>positions := ps\<rparr>) p = positionOut m order p"
  by (simp add: positionOut_def split: option.splits)

lemma positionOut_untracked:
  "m (toString (item p)) = None \<Longrightarrow> positionOut m order p = ([], [])"
  by (simp add: positionOut_def)

lemma positionOut_tracked:
  "m (toString (item p)) = Some existingItem \<Longrightarrow>
   positionOut m order p =
     ([\<lparr>email = toLowerCase (orElse (attendee_email p) (order_email order)),
        full_name = attendee_name p,
        devconnect_pretix_items_info_id = info_id existingItem,
        is_deleted = False\<rparr>],
      if \<not> truthy (attendee_email p)
      then [PositionWithoutAttendeeEmail (code order) (positionid p)] else [])"
  by (simp add: positionOut_def)

lemma toLowerChar_idem: "toLowerChar (toLowerChar c) = toLowerChar c"
  by (simp add: toLowerChar_def)

lemma toLowerCase_idem: "toLowerCase (toLowerCase s) = toLowerCase s"
  by (simp add: toLowerCase_def toLowerChar_idem)

text \<open>
  The projection of an order list around one position of one paid order: what comes
  before the position, what the position adds, what comes after.
\<close>

lemma projection_at_position:
  assumes "status order = ''p''" and "positions order = ps1 @ p # ps2"
  shows "ordersToDevconnectTickets (os1 @ order # os2) itemsInfo =
     (fst (ordersToDevconnectTickets os1 itemsInfo) @
      fst (ordersToDevconnectTickets [order\<lparr>positions := ps1\<rparr>] itemsInfo) @
      fst (positionOut (itemsInfoByItemID itemsInfo) order p) @
      fst (ordersToDevconnectTickets [order\<lparr>positions := ps2\<rparr>] itemsInfo) @
      fst (ordersToDevconnectTickets os2 itemsInfo),
      snd (ordersToDevconnectTickets os1 itemsInfo) @
      snd (ordersToDevconnectTickets [order\<lparr>positions := ps1\<rparr>] itemsInfo) @
      snd (positionOut (itemsInfoByItemID itemsInfo) order p) @
      snd (ordersToDevconnectTickets [order\<lparr>positions := ps2\<rparr>] itemsInfo) @
      snd (ordersToDevconnectTickets os2 itemsInfo))"
  using assms by (simp add: projection_concat orderOut_paid)

lemma projection_without_position:
  assumes "status order = ''p''" and "positions order = ps1 @ p # ps2"
    and "positionOut (itemsInfoByItemID itemsInfo) order p = ([], [])"
  shows "ordersToDevconnectTickets (os1 @ order # os2) itemsInfo =
         ordersToDevconnectTickets (os1 @ order\<lparr>positions := ps1 @ ps2\<rparr> # os2) itemsInfo"
  using assms by (simp add: projection_concat orderOut_paid)

text \<open>Every projected ticket comes from a tracked position of a paid order.\<close>

lemma projection_members:
  assumes "t \<in> set (fst (ordersToDevconnectTickets orders itemsInfo))"
  shows "\<exists>order p existingItem. order \<in> set orders \<and> status order = ''p'' \<and>
      p \<in> set (positions order) \<and>
      itemsInfoByItemID itemsInfo (toString (item p)) = Some existingItem \<and>
      t = \<lparr>email = toLowerCase (orElse (attendee_email p) (order_email order)),
           full_name = attendee_name p,
           devconnect_pretix_items_info_id = info_id existingItem,
           is_deleted = False\<rparr>"
proof -
  from assms obtain order where o: "order \<in> set orders"
    and t: "t \<in> set (fst (orderOut (itemsInfoByItemID itemsInfo) order))"
    by (auto simp: projection_concat)
  have paid: "status order = ''p''"
    using t orderOut_unpaid [of order "itemsInfoByItemID itemsInfo"]
    by (cases "status order = ''p''") auto
  from t obtain p where p: "p \<in> set (positions order)"
    and tp: "t \<in> set (fst (positionOut (itemsInfoByItemID itemsInfo) order p))"
    by (auto simp: orderOut_paid [OF paid])
  obtain existingItem where e: "itemsInfoByItemID itemsInfo (toString (item p)) = Some existingItem"
    using tp positionOut_untracked [of "itemsInfoByItemID itemsInfo" p order]
    by (cases "itemsInfoByItemID itemsInfo (toString (item p))") auto
  show ?thesis
    using o paid p e tp
      positionOut_tracked [of "itemsInfoByItemID itemsInfo" p existingItem order] by auto
qed

text \<open>
  Claim C6. An order whose status is not the literal \<^verbatim>\<open>"p"\<close> contributes nothing to the
  projection, whatever its positions are: alone it projects to no ticket (and no log
  entry), and inside any order list the result is the one of the list without it.
\<close>

theorem unpaid_order_yields_no_ticket:
  "status order \<noteq> ''p'' \<Longrightarrow>
   ordersToDevconnectTickets [order] itemsInfo = ([], []) \<and>
   ordersToDevconnectTickets (os1 @ order # os2) itemsInfo =
     ordersToDevconnectTickets (os1 @ os2) itemsInfo"
  by (simp add: projection_concat orderOut_unpaid)

theorem unpaid_order_yields_no_ticket_witness:
  "status (exOrder ''n'' [exPosition 1 (Some ''X@Y.com'') ''Ann'']) \<noteq> ''p'' \<and>
   ordersToDevconnectTickets [exOrder ''n'' [exPosition 1 (Some ''X@Y.com'') ''Ann'']] exItems =
     ([], []) \<and>
   ordersToDevconnectTickets
     ([exOrder ''p'' [exPosition 1 (Some ''X@Y.com'') ''Ann'']] @
      exOrder ''n'' [exPosition 1 (Some ''Z@Y.com'') ''Bob''] # []) exItems =
   ([\<lparr>email = ''x@y.com'', full_name = Some ''Ann'', devconnect_pretix_items_info_id = 7,
      is_deleted = False\<rparr>], [])"
proof -
  have h: "status (exOrder ''n'' [exPosition 1 (Some ''X@Y.com'') ''Ann'']) \<noteq> ''p''"
    by (simp add: exOrder_def)
  have h2: "status (exOrder ''n'' [exPosition 1 (Some ''Z@Y.com'') ''Bob'']) \<noteq> ''p''"
    by (simp add: exOrder_def)
  show ?thesis
    using unpaid_order_yields_no_ticket [OF h, of exItems "[]" "[]"]
      unpaid_order_yields_no_ticket [OF h2, of exItems
        "[exOrder ''p'' [exPosition 1 (Some ''X@Y.com'') ''Ann'']]" "[]"]
    by (simp add: ex_defs projection_defs)
qed

text \<open>
  Claim C7. In a paid order, a position whose item is in the item-info map and whose
  attendee email is present (not empty) adds exactly one ticket, at its place in the
  output: its email is the attendee email in lower case and its owning item is the local
  id of the map's row. A position whose item is not in the map adds nothing: the result,
  tickets and log, is the one of the order without that position.
\<close>

theorem paid_tracked_position_yields_one_ticket:
  assumes "status order = ''p''" and "positions order = ps1 @ p # ps2"
  shows "(itemsInfoByItemID itemsInfo (toString (item p)) = Some existingItem \<and>
          attendee_email p = Some e \<and> e \<noteq> [] \<longrightarrow>
          fst (ordersToDevconnectTickets (os1 @ order # os2) itemsInfo) =
            fst (ordersToDevconnectTickets os1 itemsInfo) @
            fst (ordersToDevconnectTickets [order\<lparr>positions := ps1\<rparr>] itemsInfo) @
            [\<lparr>email = toLowerCase e, full_name = attendee_name p,
              devconnect_pretix_items_info_id = info_id existingItem, is_deleted = False\<rparr>] @
            fst (ordersToDevconnectTickets [order\<lparr>positions := ps2\<rparr>] itemsInfo) @
            fst (ordersToDevconnectTickets os2 itemsInfo)) \<and>
         (itemsInfoByItemID itemsInfo (toString (item p)) = None \<longrightarrow>
          ordersToDevconnectTickets (os1 @ order # os2) itemsInfo =
            ordersToDevconnectTickets (os1 @ order\<lparr>positions := ps1 @ ps2\<rparr> # os2) itemsInfo)"
proof (intro conjI impI)
  assume h: "itemsInfoByItemID itemsInfo (toString (item p)) = Some existingItem \<and>
          attendee_email p = Some e \<and> e \<noteq> []"
  then have "orElse (attendee_email p) (order_email order) = e"
    by (simp add: orElse_def truthy_def)
  with h show "fst (ordersToDevconnectTickets (os1 @ order # os2) itemsInfo) =
            fst (ordersToDevconnectTickets os1 itemsInfo) @
            fst (ordersToDevconnectTickets [order\<lparr>positions := ps1\<rparr>] itemsInfo) @
            [\<lparr>email = toLowerCase e, full_name = attendee_name p,
              devconnect_pretix_items_info_id = info_id existingItem, is_deleted = False\<rparr>] @
            fst (ordersToDevconnectTickets [order\<lparr>positions := ps2\<rparr>] itemsInfo) @
            fst (ordersToDevconnectTickets os2 itemsInfo)"
    using positionOut_tracked [of "itemsInfoByItemID itemsInfo" p existingItem order]
    by (simp add: projection_at_position [OF assms])
next
  assume "itemsInfoByItemID itemsInfo (toString (item p)) = None"
  then show "ordersToDevconnectTickets (os1 @ order # os2) itemsInfo =
            ordersToDevconnectTickets (os1 @ order\<lparr>positions := ps1 @ ps2\<rparr> # os2) itemsInfo"
    by (intro projection_without_position [OF assms] positionOut_untracked)
qed

theorem paid_tracked_position_yields_one_ticket_witness:
  "fst (ordersToDevconnectTickets [exOrder ''p'' [exPosition 1 (Some ''X@Y.com'') ''Ann'']] exItems) =
     [\<lparr>email = ''x@y.com'', full_name = Some ''Ann'', devconnect_pretix_items_info_id = 7,
       is_deleted = False\<rparr>] \<and>
   ordersToDevconnectTickets
     [exOrder ''p'' [exPosition 2 (Some ''X@Y.com'') ''Ann'', exPosition 1 (Some ''X@Y.com'') ''Ann'']]
     exItems =
   ordersToDevconnectTickets [exOrder ''p'' [exPosition 1 (Some ''X@Y.com'') ''Ann'']] exItems"
proof -
  have a: "status (exOrder ''p'' [exPosition 1 (Some ''X@Y.com'') ''Ann'']) = ''p''"
    and b: "positions (exOrder ''p'' [exPosition 1 (Some ''X@Y.com'') ''Ann'']) =
              [] @ exPosition 1 (Some ''X@Y.com'') ''Ann'' # []"
    and c: "itemsInfoByItemID exItems (toString (item (exPosition 1 (Some ''X@Y.com'') ''Ann''))) =
              Some (hd exItems)"
    and d: "attendee_email (exPosition 1 (Some ''X@Y.com'') ''Ann'') = Some ''X@Y.com''"
    by (simp_all add: ex_defs projection_defs)
  have a': "status (exOrder ''p'' [exPosition 2 (Some ''X@Y.com'') ''Ann'',
                exPosition 1 (Some ''X@Y.com'') ''Ann'']) = ''p''"
    and b': "positions (exOrder ''p'' [exPosition 2 (Some ''X@Y.com'') ''Ann'',
                exPosition 1 (Some ''X@Y.com'') ''Ann'']) =
              [] @ exPosition 2 (Some ''X@Y.com'') ''Ann'' # [exPosition 1 (Some ''X@Y.com'') ''Ann'']"
    and c': "itemsInfoByItemID exItems (toString (item (exPosition 2 (Some ''X@Y.com'') ''Ann''))) =
              None"
    by (simp_all add: ex_defs projection_defs)
  show ?thesis
    using paid_tracked_position_yields_one_ticket
            [OF a b, of exItems "hd exItems" "''X@Y.com''" "[]" "[]"]
      paid_tracked_position_yields_one_ticket [OF a' b', of exItems undefined undefined "[]" "[]"]
      c d c'
    by (simp add: ex_defs projection_defs)
qed

text \<open>
  Claim C8. In a paid order, a tracked position without attendee email (absent or empty)
  is not dropped: it adds one ticket whose email is the purchaser email of the order in
  lower case, and the projection logs the order code and the position id and goes on.
  With an attendee email the ticket carries that email in lower case and nothing is
  logged. On both paths the email is lower-cased: every projected email is a fixed point
  of \<open>toLowerCase\<close>.
\<close>

theorem position_without_attendee_email_falls_back:
  assumes "status order = ''p''" and "positions order = ps1 @ p # ps2"
    and "itemsInfoByItemID itemsInfo (toString (item p)) = Some existingItem"
  shows "(\<not> truthy (attendee_email p) \<longrightarrow>
          ordersToDevconnectTickets (os1 @ order # os2) itemsInfo =
            (fst (ordersToDevconnectTickets os1 itemsInfo) @
             fst (ordersToDevconnectTickets [order\<lparr>positions := ps1\<rparr>] itemsInfo) @
             [\<lparr>email = toLowerCase (order_email order), full_name = attendee_name p,
               devconnect_pretix_items_info_id = info_id existingItem, is_deleted = False\<rparr>] @
             fst (ordersToDevconnectTickets [order\<lparr>positions := ps2\<rparr>] itemsInfo) @
             fst (ordersToDevconnectTickets os2 itemsInfo),
             snd (ordersToDevconnectTickets os1 itemsInfo) @
             snd (ordersToDevconnectTickets [order\<lparr>positions := ps1\<rparr>] itemsInfo) @
             [PositionWithoutAttendeeEmail (code order) (positionid p)] @
             snd (ordersToDevconnectTickets [order\<lparr>positions := ps2\<rparr>] itemsInfo) @
             snd (ordersToDevconnectTickets os2 itemsInfo))) \<and>
         (truthy (attendee_email p) \<longrightarrow>
          ordersToDevconnectTickets (os1 @ order # os2) itemsInfo =
            (fst (ordersToDevconnectTickets os1 itemsInfo) @
             fst (ordersToDevconnectTickets [order\<lparr>positions := ps1\<rparr>] itemsInfo) @
             [\<lparr>email = toLowerCase (the (attendee_email p)), full_name = attendee_name p,
               devconnect_pretix_items_info_id = info_id existingItem, is_deleted = False\<rparr>] @
             fst (ordersToDevconnectTickets [order\<lparr>positions := ps2\<rparr>] itemsInfo) @
             fst (ordersToDevconnectTickets os2 itemsInfo),
             snd (ordersToDevconnectTickets os1 itemsInfo) @
             snd (ordersToDevconnectTickets [order\<lparr>positions := ps1\<rparr>] itemsInfo) @
             snd (ordersToDevconnectTickets [order\<lparr>positions := ps2\<rparr>] itemsInfo) @
             snd (ordersToDevconnectTickets os2 itemsInfo))) \<and>
         (\<forall>t \<in> set (fst (ordersToDevconnectTickets orders itemsInfo')).
            toLowerCase (email t) = email t)"
proof -
  have out: "positionOut (itemsInfoByItemID itemsInfo) order p =
     ([\<lparr>email = toLowerCase (orElse (attendee_email p) (order_email order)),
        full_name = attendee_name p,
        devconnect_pretix_items_info_id = info_id existingItem,
        is_deleted = False\<rparr>],
      if \<not> truthy (attendee_email p)
      then [PositionWithoutAttendeeEmail (code order) (positionid p)] else [])"
    using assms(3) by (rule positionOut_tracked)
  have lower: "\<forall>t \<in> set (fst (ordersToDevconnectTickets orders itemsInfo')).
            toLowerCase (email t) = email t"
    using projection_members [of _ orders itemsInfo'] by (fastforce simp: toLowerCase_idem)
  show ?thesis
    using lower by (simp add: projection_at_position [OF assms(1,2)] out orElse_def)
qed

theorem position_without_attendee_email_falls_back_witness:
  "ordersToDevconnectTickets [exOrder ''p'' [exPosition 1 None ''Ann'']] exItems =
     ([\<lparr>email = ''buyer@y.com'', full_name = Some ''Ann'', devconnect_pretix_items_info_id = 7,
        is_deleted = False\<rparr>],
      [PositionWithoutAttendeeEmail ''A1B2'' 3]) \<and>
   ordersToDevconnectTickets [exOrder ''p'' [exPosition 1 (Some ''X@Y.com'') ''Ann'']] exItems =
     ([\<lparr>email = ''x@y.com'', full_name = Some ''Ann'', devconnect_pretix_items_info_id = 7,
        is_deleted = False\<rparr>], []) \<and>
   list_all (\<lambda>t. toLowerCase (email t) = email t)
     (fst (ordersToDevconnectTickets
        [exOrder ''p'' [exPosition 1 None ''Ann'', exPosition 1 (Some ''X@Y.com'') ''Bob'']] exItems))"
proof -
  have a: "status (exOrder ''p'' [exPosition 1 None ''Ann'']) = ''p''"
    and b: "positions (exOrder ''p'' [exPosition 1 None ''Ann'']) = [] @ exPosition 1 None ''Ann'' # []"
    and c: "itemsInfoByItemID exItems (toString (item (exPosition 1 None ''Ann''))) = Some (hd exItems)"
    by (simp_all add: ex_defs projection_defs)
  have a': "status (exOrder ''p'' [exPosition 1 (Some ''X@Y.com'') ''Ann'']) = ''p''"
    and b': "positions (exOrder ''p'' [exPosition 1 (Some ''X@Y.com'') ''Ann'']) =
               [] @ exPosition 1 (Some ''X@Y.com'') ''Ann'' # []"
    and c': "itemsInfoByItemID exItems (toString (item (exPosition 1 (Some ''X@Y.com'') ''Ann''))) =
               Some (hd exItems)"
    by (simp_all add: ex_defs projection_defs)
  show ?thesis
    using position_without_attendee_email_falls_back [OF a b c, of "[]" "[]"
        "[exOrder ''p'' [exPosition 1 None ''Ann'', exPosition 1 (Some ''X@Y.com'') ''Bob'']]" exItems]
      position_without_attendee_email_falls_back [OF a' b' c', of "[]" "[]" "[]" exItems]
    by (simp add: ex_defs projection_defs)
qed

text \<open>
  Claim C10. An attendee email that is the empty string is treated like an absent one:
  the ticket of a tracked position of a paid order then carries the purchaser email of the
  order in lower case. Every ticket the projection emits has \<open>is_deleted = False\<close>.
\<close>

theorem empty_attendee_email_is_absent:
  assumes "status order = ''p''" and "positions order = ps1 @ p # ps2"
    and "itemsInfoByItemID itemsInfo (toString (item p)) = Some existingItem"
    and "attendee_email p = Some []"
  shows "fst (ordersToDevconnectTickets (os1 @ order # os2) itemsInfo) =
            fst (ordersToDevconnectTickets os1 itemsInfo) @
            fst (ordersToDevconnectTickets [order\<lparr>positions := ps1\<rparr>] itemsInfo) @
            [\<lparr>email = toLowerCase (order_email order), full_name = attendee_name p,
              devconnect_pretix_items_info_id = info_id existingItem, is_deleted = False\<rparr>] @
            fst (ordersToDevconnectTickets [order\<lparr>positions := ps2\<rparr>] itemsInfo) @
            fst (ordersToDevconnectTickets os2 itemsInfo) \<and>
         (\<forall>t \<in> set (fst (ordersToDevconnectTickets orders itemsInfo')). is_deleted t = False)"
proof -
  have "orElse (attendee_email p) (order_email order) = order_email order"
    using assms(4) by (simp add: orElse_def truthy_def)
  then have 1: "fst (positionOut (itemsInfoByItemID itemsInfo) order p) =
     [\<lparr>email = toLowerCase (order_email order), full_name = attendee_name p,
       devconnect_pretix_items_info_id = info_id existingItem, is_deleted = False\<rparr>]"
    using positionOut_tracked [of "itemsInfoByItemID itemsInfo" p existingItem order] assms(3)
    by simp
  have 2: "\<forall>t \<in> set (fst (ordersToDevconnectTickets orders itemsInfo')). is_deleted t = False"
    using projection_members [of _ orders itemsInfo'] by fastforce
  show ?thesis
    using 2 by (simp add: projection_at_position [OF assms(1,2)] 1)
qed

theorem empty_attendee_email_is_absent_witness:
  "fst (ordersToDevconnectTickets [exOrder ''p'' [exPosition 1 (Some []) ''Ann'']] exItems) =
     [\<lparr>email = ''buyer@y.com'', full_name = Some ''Ann'', devconnect_pretix_items_info_id = 7,
       is_deleted = False\<rparr>] \<and>
   list_all (\<lambda>t. is_deleted t = False)
     (fst (ordersToDevconnectTickets
        [exOrder ''p'' [exPosition 1 (Some []) ''Ann'', exPosition 1 (Some ''X@Y.com'') ''Bob'']] exItems))"
proof -
  have a: "status (exOrder ''p'' [exPosition 1 (Some []) ''Ann'']) = ''p''"
    and b: "positions (exOrder ''p'' [exPosition 1 (Some []) ''Ann'']) =
              [] @ exPosition 1 (Some []) ''Ann'' # []"
    and c: "itemsInfoByItemID exItems (toString (item (exPosition 1 (Some []) ''Ann''))) =
              Some (hd exItems)"
    and d: "attendee_email (exPosition 1 (Some []) ''Ann'') = Some []"
    by (simp_all add: ex_defs projection_defs)
  show ?thesis
    using empty_attendee_email_is_absent [OF a b c d, of "[]" "[]"
        "[exOrder ''p'' [exPosition 1 (Some []) ''Ann'', exPosition 1 (Some ''X@Y.com'') ''Bob'']]"
        exItems]
    by (simp add: ex_defs projection_defs)
qed

section \<open>Properties of the phases\<close>

lemma saveEventInfo_no_ticket_phase:
  "filter isTicketPhase (snd (snd (saveEventInfo api organizer event d))) = []"
  by (simp add: saveEventInfo_def Let_def split: sum.splits option.splits)

lemma saveEventInfo_keeps_items_and_tickets:
  "items_info (fst (snd (saveEventInfo api organizer event d))) = items_info d \<and>
   tickets (fst (snd (saveEventInfo api organizer event d))) = tickets d"
  by (simp add: saveEventInfo_def Let_def insertPretixEventsInfo_def updatePretixEventsInfo_def
      split: sum.splits option.splits)

lemma saveItemsInfo_missing_active_item:
  assumes "fetchItems api (orgURL organizer) (token organizer) (eventID event) = Inr catalog"
    and "\<exists>i \<in> set (activeItemIDs event). i \<notin> set (map itemKey catalog)"
  shows "saveItemsInfo api organizer event d =
           (False, d, [ApiFetchItems (orgURL organizer) (token organizer) (eventID event)])"
  using assms by (auto simp: saveItemsInfo_def Let_def list_ex_iff)

text \<open>
  Claim C1. When the item catalog is fetched and some id of \<open>activeItemIDs\<close> is not among
  its ids, \<open>saveItemsInfo\<close> returns \<^verbatim>\<open>false\<close>, leaves the database as it was and issues
  no statement (its only effect is the fetch), and \<open>syncAllPretixForOrganizerAndEvent\<close>
  issues no item-info write, does not enter the ticket phase (no order fetch, no ticket
  write) and leaves the item-info rows and the tickets as they were.
\<close>

theorem missing_active_item_aborts:
  assumes "fetchItems api (orgURL organizer) (token organizer) (eventID event) = Inr catalog"
    and "\<exists>i \<in> set (activeItemIDs event). i \<notin> set (map itemKey catalog)"
  shows "saveItemsInfo api organizer event d =
           (False, d, [ApiFetchItems (orgURL organizer) (token organizer) (eventID event)]) \<and>
         filter isItemWrite (snd (syncAllPretixForOrganizerAndEvent api organizer event d)) = [] \<and>
         filter isTicketPhase (snd (syncAllPretixForOrganizerAndEvent api organizer event d)) = [] \<and>
         items_info (fst (syncAllPretixForOrganizerAndEvent api organizer event d)) = items_info d \<and>
         tickets (fst (syncAllPretixForOrganizerAndEvent api organizer event d)) = tickets d"
proof -
  obtain ok1 d1 fx1 where e: "saveEventInfo api organizer event d = (ok1, d1, fx1)"
    by (cases "saveEventInfo api organizer event d") auto
  have fx1: "filter isTicketPhase fx1 = []" "filter isItemWrite fx1 = []"
    using e by (auto simp: saveEventInfo_def Let_def split: sum.splits option.splits)
  have d1: "items_info d1 = items_info d" "tickets d1 = tickets d"
    using saveEventInfo_keeps_items_and_tickets [of api organizer event d] e by simp_all
  have i: "saveItemsInfo api organizer event d1 =
           (False, d1, [ApiFetchItems (orgURL organizer) (token organizer) (eventID event)])"
    for d1 using assms by (rule saveItemsInfo_missing_active_item)
  show ?thesis
    using fx1 d1 by (simp add: i syncAllPretixForOrganizerAndEvent_def e)
qed

theorem missing_active_item_aborts_witness:
  "saveItemsInfo (exApi ''Devconnect'' exCatalog [exOrder ''p'' [exPosition 1 None ''Ann'']])
      exOrganizer (exEvent [''1'', ''9'']) (exDb []) =
     (False, exDb [], [ApiFetchItems ''organizer-url'' ''token'' ''event-a'']) \<and>
   snd (syncAllPretixForOrganizerAndEvent
      (exApi ''Devconnect'' exCatalog [exOrder ''p'' [exPosition 1 None ''Ann'']])
      exOrganizer (exEvent [''1'', ''9'']) (exDb [])) =
     [ApiFetchEvent ''organizer-url'' ''token'' ''event-a'', UpdateEventsInfo 5 ''Devconnect'',
      ApiFetchItems ''organizer-url'' ''token'' ''event-a''] \<and>
   fst (syncAllPretixForOrganizerAndEvent
      (exApi ''Devconnect'' exCatalog [exOrder ''p'' [exPosition 1 None ''Ann'']])
      exOrganizer (exEvent [''1'', ''9'']) (exDb [])) = exDb []"
proof -
  have a: "fetchItems (exApi ''Devconnect'' exCatalog [exOrder ''p'' [exPosition 1 None ''Ann'']])
             (orgURL exOrganizer) (token exOrganizer) (eventID (exEvent [''1'', ''9''])) = Inr exCatalog"
    by (simp add: ex_defs)
  have b: "\<exists>i \<in> set (activeItemIDs (exEvent [''1'', ''9''])). i \<notin> set (map itemKey exCatalog)"
    by (simp add: ex_defs itemKey_def toString_def digitsOfNat.simps)
  show ?thesis
    using missing_active_item_aborts [OF a b, of "exDb []"]
    by (simp add: ex_defs syncAllPretixForOrganizerAndEvent_def saveEventInfo_def Let_def
        fetchPretixEventInfo_def updatePretixEventsInfo_def)
qed

lemma find_map_update:
  assumes "find (\<lambda>r. pretix_events_config_id r = c) rows = Some existing"
  shows "find (\<lambda>r. pretix_events_config_id r = c)
           (map (\<lambda>r. if event_info_id r = event_info_id existing then r\<lparr>event_name := n\<rparr> else r) rows) =
         Some (existing\<lparr>event_name := n\<rparr>)"
  using assms by (induction rows) (auto split: if_splits)

lemma find_append_new:
  assumes "find P rows = None" and "P r"
  shows "find P (rows @ [r]) = Some r"
  using assms by (induction rows) (auto split: if_splits)

text \<open>
  Claim C4, as stated, fails: with a stored record whose name equals the fetched name the
  phase still issues an update of the event-info table.
\<close>

theorem saveEventInfo_counterexample:
  "fetchEvent (exApi ''Devconnect'' exCatalog []) (orgURL exOrganizer) (token exOrganizer)
     (eventID (exEvent [''1''])) = Inr \<lparr>slug = ''event-a'', event_name_en = ''Devconnect''\<rparr> \<and>
   map_option event_name (fetchPretixEventInfo (exDb []) (config_id (exEvent [''1'']))) =
     Some ''Devconnect'' \<and>
   filter isEventWrite
     (snd (snd (saveEventInfo (exApi ''Devconnect'' exCatalog []) exOrganizer (exEvent [''1''])
        (exDb [])))) = [UpdateEventsInfo 5 ''Devconnect'']"
  by (simp add: ex_defs saveEventInfo_def fetchPretixEventInfo_def Let_def)

text \<open>
  Claim C4, amended. When the event is fetched, \<open>saveEventInfo\<close> inserts a record if the
  event configuration has none; if it has one, it issues exactly one update of that record
  with the fetched name, whether or not the name differs from the stored one. In both
  cases the phase succeeds and the stored name is the fetched name afterwards.
\<close>

theorem saveEventInfo_inserts_or_updates:
  assumes "fetchEvent api (orgURL organizer) (token organizer) (eventID event) = Inr fetched"
  shows "(fetchPretixEventInfo d (config_id event) = None \<longrightarrow>
          saveEventInfo api organizer event d =
            (True, insertPretixEventsInfo (event_name_en fetched) (config_id event) d,
             [ApiFetchEvent (orgURL organizer) (token organizer) (eventID event),
              InsertEventsInfo (event_name_en fetched) (config_id event)])) \<and>
         (\<forall>existingEvent. fetchPretixEventInfo d (config_id event) = Some existingEvent \<longrightarrow>
          saveEventInfo api organizer event d =
            (True, updatePretixEventsInfo (event_info_id existingEvent) (event_name_en fetched) d,
             [ApiFetchEvent (orgURL organizer) (token organizer) (eventID event),
              UpdateEventsInfo (event_info_id existingEvent) (event_name_en fetched)])) \<and>
         map_option event_name
           (fetchPretixEventInfo (fst (snd (saveEventInfo api organizer event d))) (config_id event)) =
           Some (event_name_en fetched)"
proof (cases "fetchPretixEventInfo d (config_id event)")
  case None
  then show ?thesis
    using assms
    by (simp add: saveEventInfo_def Let_def fetchPretixEventInfo_def insertPretixEventsInfo_def
        find_append_new)
next
  case (Some existingEvent)
  then show ?thesis
    using assms
    by (simp add: saveEventInfo_def Let_def fetchPretixEventInfo_def updatePretixEventsInfo_def
        find_map_update)
qed

theorem saveEventInfo_inserts_or_updates_witness:
  "saveEventInfo (exApi ''Devconnect 2'' exCatalog []) exOrganizer (exEvent [''1'']) (exDb []) =
     (True,
      (exDb [])\<lparr>events_info :=
         [\<lparr>event_info_id = 5, pretix_events_config_id = 1, event_name = ''Devconnect 2''\<rparr>]\<rparr>,
      [ApiFetchEvent ''organizer-url'' ''token'' ''event-a'', UpdateEventsInfo 5 ''Devconnect 2'']) \<and>
   saveEventInfo (exApi ''Devconnect'' exCatalog []) exOrganizer (exEvent [''1''])
     ((exDb [])\<lparr>events_info := []\<rparr>) =
     (True,
      (exDb [])\<lparr>events_info :=
         [\<lparr>event_info_id = 6, pretix_events_config_id = 1, event_name = ''Devconnect''\<rparr>],
         next_event_info_id := 7\<rparr>,
      [ApiFetchEvent ''organizer-url'' ''token'' ''event-a'', InsertEventsInfo ''Devconnect'' 1])"
proof -
  have a: "fetchEvent (exApi ''Devconnect 2'' exCatalog []) (orgURL exOrganizer) (token exOrganizer)
     (eventID (exEvent [''1''])) = Inr \<lparr>slug = ''event-a'', event_name_en = ''Devconnect 2''\<rparr>"
    by (simp add: ex_defs)
  have b: "fetchEvent (exApi ''Devconnect'' exCatalog []) (orgURL exOrganizer) (token exOrganizer)
     (eventID (exEvent [''1''])) = Inr \<lparr>slug = ''event-a'', event_name_en = ''Devconnect''\<rparr>"
    by (simp add: ex_defs)
  have c: "fetchPretixEventInfo (exDb []) (config_id (exEvent [''1''])) =
             Some \<lparr>event_info_id = 5, pretix_events_config_id = 1, event_name = ''Devconnect''\<rparr>"
    and d: "fetchPretixEventInfo ((exDb [])\<lparr>events_info := []\<rparr>) (config_id (exEvent [''1''])) = None"
    by (simp_all add: ex_defs fetchPretixEventInfo_def)
  show ?thesis
    using saveEventInfo_inserts_or_updates [OF a, of "exDb []"]
      saveEventInfo_inserts_or_updates [OF b, of "(exDb [])\<lparr>events_info := []\<rparr>"] c d
    by (simp add: ex_defs updatePretixEventsInfo_def insertPretixEventsInfo_def)
qed

section \<open>The scheduler\<close>

text \<open>
  Between cycles (no cycle in flight, the only armed timer being the one in
  \<open>this.timeout\<close>) \<open>Stop\<close> does end the loop: unless \<open>startSyncLoop\<close> is called again, no
  further cycle begins.
\<close>

lemma idle_run_starts_nothing:
  assumes "in_flight s = 0" and "pending s = {}" and "StartSyncLoop \<notin> set es"
    and "sched_run es s = Some s'"
  shows "cycles_started s' = cycles_started s"
  using assms
proof (induction es arbitrary: s)
  case Nil
  then show ?case by simp
next
  case (Cons e es)
  show ?case
  proof (cases e)
    case Stop
    then obtain s1 where s1: "sched_step e s = Some s1" "in_flight s1 = 0" "pending s1 = {}"
      "cycles_started s1 = cycles_started s"
      using Cons.prems(1,2) by (cases "timeout s") auto
    with Cons.prems have "sched_run es s1 = Some s'" "StartSyncLoop \<notin> set es" by auto
    with Cons.IH [of s1] s1 show ?thesis by simp
  qed (use Cons.prems in auto)
qed

lemma stop_between_cycles:
  assumes "in_flight s = 0" and "pending s \<subseteq> set_option (timeout s)"
    and "StartSyncLoop \<notin> set es" and "sched_run (Stop # es) s = Some s'"
  shows "cycles_started s' = cycles_started s"
proof -
  obtain s1 where s1: "sched_step Stop s = Some s1" "in_flight s1 = 0" "pending s1 = {}"
      "cycles_started s1 = cycles_started s"
    using assms(1,2) by (cases "timeout s") auto
  with assms(4) have "sched_run es s1 = Some s'" by simp
  with idle_run_starts_nothing [of s1 es s'] s1 assms(3) show ?thesis by simp
qed

text \<open>
  Claim C9 does not hold of the code when \<open>stop()\<close> is called while a cycle is in flight.
  During the first cycle \<open>this.timeout\<close> is still undefined, later it holds a timer that
  has fired already; in both cases \<open>stop()\<close> clears nothing, the loop body arms the next
  timer when the cycle settles, and that timer begins a new cycle. The first two runs
  show it (two and three cycles begun, the last one after \<open>Stop\<close>); in the third run
  \<open>Stop\<close> comes between cycles and the cleared timer cannot fire.
\<close>

theorem stop_during_cycle_does_not_stop:
  "sched_run [StartSyncLoop, Stop, CycleSettles, TimerFires 0] newService =
     Some \<lparr>timeout = Some 0, pending = {}, in_flight = 1, next_handle = 1, cycles_started = 2\<rparr> \<and>
   sched_run [StartSyncLoop, CycleSettles, TimerFires 0, Stop, CycleSettles, TimerFires 1] newService =
     Some \<lparr>timeout = Some 1, pending = {}, in_flight = 1, next_handle = 2, cycles_started = 3\<rparr> \<and>
   sched_run [StartSyncLoop, CycleSettles, Stop, TimerFires 0] newService = None"
  by (simp add: newService_def)

section \<open>The change-set of a phase\<close>

lemma has_newMap: "has (newMap (map (\<lambda>x. (k x, x)) xs)) key = (key \<in> k ` set xs)"
proof -
  have "(map_of (rev (map (\<lambda>x. (k x, x)) xs)) key = None) = (key \<notin> k ` set xs)"
    by (simp add: map_of_eq_None_iff image_image)
  then show ?thesis by (simp add: has_def newMap_def)
qed

lemma newMap_Some_member:
  "newMap (map (\<lambda>x. (k x, x)) xs) key = Some x \<Longrightarrow> x \<in> set xs \<and> k x = key"
  by (auto simp: newMap_def dest!: map_of_SomeD)

















section \<open>The ticket phase\<close>

lemma fetch_tickets_inEvent:
  "fetchDevconnectPretixTicketsByEvent d ev =
     filter (inEvent (fetchPretixItemsInfoByEvent d ev)) (tickets d)"
  by (simp add: fetchDevconnectPretixTicketsByEvent_def inEvent_def [abs_def])

lemma fold_insert_tickets:
  "fold insertDevconnectPretixTicket xs d = d\<lparr>tickets := tickets d @ xs\<rparr>"
  by (induction xs arbitrary: d) (simp_all add: insertDevconnectPretixTicket_def)

lemma fold_update_tickets:
  "fold updateDevconnectPretixTicket us d = d\<lparr>tickets := map (updateRows us) (tickets d)\<rparr>"
proof (induction us arbitrary: d)
  case Nil
  then show ?case by (simp add: updateRows_def)
next
  case (Cons u us)
  have "fold updateDevconnectPretixTicket (u # us) d =
        fold updateDevconnectPretixTicket us (updateDevconnectPretixTicket u d)"
    by simp
  also have "\<dots> = (updateDevconnectPretixTicket u d)
      \<lparr>tickets := map (updateRows us) (tickets (updateDevconnectPretixTicket u d))\<rparr>"
    by (rule Cons.IH)
  also have "\<dots> = d\<lparr>tickets := map (updateRows (u # us)) (tickets d)\<rparr>"
    by (simp add: updateDevconnectPretixTicket_def updateRows_def)
  finally show ?case .
qed

lemma softDeleteRows_Cons:
  "softDeleteRows (x # xs) r =
     softDeleteRows xs (if getEmailAndItemKey r = getEmailAndItemKey x
                        then r\<lparr>is_deleted := True\<rparr> else r)"
  by (auto simp: softDeleteRows_def getEmailAndItemKey_def)

lemma fold_softDelete_tickets:
  "fold softDeleteDevconnectPretixTicket xs d = d\<lparr>tickets := map (softDeleteRows xs) (tickets d)\<rparr>"
proof (induction xs arbitrary: d)
  case Nil
  then show ?case by (simp add: softDeleteRows_def)
next
  case (Cons x xs)
  have "fold softDeleteDevconnectPretixTicket (x # xs) d =
        fold softDeleteDevconnectPretixTicket xs (softDeleteDevconnectPretixTicket x d)"
    by simp
  also have "\<dots> = (softDeleteDevconnectPretixTicket x d)
      \<lparr>tickets := map (softDeleteRows xs) (tickets (softDeleteDevconnectPretixTicket x d))\<rparr>"
    by (rule Cons.IH)
  also have "\<dots> = d\<lparr>tickets := map (softDeleteRows (x # xs)) (tickets d)\<rparr>"
    by (simp add: softDeleteDevconnectPretixTicket_def softDeleteRows_Cons [of x xs])
  finally show ?case .
qed

lemma key_updateRows [simp]: "getEmailAndItemKey (updateRows us r) = getEmailAndItemKey r"
  unfolding updateRows_def
  by (induction us arbitrary: r) (simp_all add: getEmailAndItemKey_def)

lemma is_deleted_updateRows [simp]: "is_deleted (updateRows us r) = is_deleted r"
  unfolding updateRows_def
  by (induction us arbitrary: r) simp_all

lemma key_softDeleteRows [simp]: "getEmailAndItemKey (softDeleteRows xs r) = getEmailAndItemKey r"
  by (simp add: softDeleteRows_def getEmailAndItemKey_def)

lemma full_name_softDeleteRows [simp]: "full_name (softDeleteRows xs r) = full_name r"
  by (simp add: softDeleteRows_def)

lemma is_deleted_softDeleteRows:
  "is_deleted (softDeleteRows xs r) =
     (is_deleted r \<or> getEmailAndItemKey r \<in> getEmailAndItemKey ` set xs)"
  by (simp add: softDeleteRows_def)

lemma saveTickets_fetched:
  assumes "fetchOrders api (orgURL organizer) (token organizer) (eventID event) = Inr pretixOrders"
  shows "saveTickets api organizer event d =
    (True,
     d\<lparr>tickets :=
        map (softDeleteRows
               (removedTickets (fetchDevconnectPretixTicketsByEvent d (config_id event))
                  (fst (ordersToDevconnectTickets pretixOrders
                          (fetchPretixItemsInfoByEvent d (config_id event))))) \<circ>
             updateRows
               (updatedTickets (fetchDevconnectPretixTicketsByEvent d (config_id event))
                  (fst (ordersToDevconnectTickets pretixOrders
                          (fetchPretixItemsInfoByEvent d (config_id event))))))
          (tickets d @
           newTickets (fetchDevconnectPretixTicketsByEvent d (config_id event))
             (fst (ordersToDevconnectTickets pretixOrders
                     (fetchPretixItemsInfoByEvent d (config_id event)))))\<rparr>,
     ApiFetchOrders (orgURL organizer) (token organizer) (eventID event) #
     map InsertTicket
       (newTickets (fetchDevconnectPretixTicketsByEvent d (config_id event))
          (fst (ordersToDevconnectTickets pretixOrders
                  (fetchPretixItemsInfoByEvent d (config_id event))))) @
     map UpdateTicket
       (updatedTickets (fetchDevconnectPretixTicketsByEvent d (config_id event))
          (fst (ordersToDevconnectTickets pretixOrders
                  (fetchPretixItemsInfoByEvent d (config_id event))))) @
     map SoftDeleteTicket
       (removedTickets (fetchDevconnectPretixTicketsByEvent d (config_id event))
          (fst (ordersToDevconnectTickets pretixOrders
                  (fetchPretixItemsInfoByEvent d (config_id event))))))"
  using assms
  by (simp add: saveTickets_def Let_def fold_insert_tickets fold_update_tickets
      fold_softDelete_tickets)

lemma saveTickets_failed:
  assumes "fetchOrders api (orgURL organizer) (token organizer) (eventID event) = Inl e"
  shows "saveTickets api organizer event d =
    (False, d, [ApiFetchOrders (orgURL organizer) (token organizer) (eventID event)])"
  using assms by (simp add: saveTickets_def Let_def)


lemma item_of_key: "devconnect_pretix_items_info_id r = snd (getEmailAndItemKey r)"
  by (simp add: getEmailAndItemKey_def)

lemma inEvent_after:
  "inEvent items (softDeleteRows rem (updateRows upd x)) =
     (inEvent items x \<and> getEmailAndItemKey x \<notin> getEmailAndItemKey ` set rem)"
proof -
  have "devconnect_pretix_items_info_id (softDeleteRows rem (updateRows upd x)) =
        devconnect_pretix_items_info_id x"
    by (simp add: item_of_key)
  then show ?thesis
    by (auto simp: inEvent_def is_deleted_softDeleteRows)
qed

lemma fetch_after_rows:
  "filter (inEvent items) (map (softDeleteRows rem \<circ> updateRows upd) xs) =
   map (softDeleteRows rem \<circ> updateRows upd)
     (filter (\<lambda>x. getEmailAndItemKey x \<notin> getEmailAndItemKey ` set rem) (filter (inEvent items) xs))"
  by (induction xs) (simp_all add: inEvent_after)

lemma keys_after_rows:
  "map getEmailAndItemKey
     (filter (inEvent items) (map (softDeleteRows rem \<circ> updateRows upd) xs)) =
   map getEmailAndItemKey
     (filter (\<lambda>x. getEmailAndItemKey x \<notin> getEmailAndItemKey ` set rem) (filter (inEvent items) xs))"
  by (induction xs) (simp_all add: inEvent_after)

lemma items_after_tickets [simp]:
  "fetchPretixItemsInfoByEvent (d\<lparr>tickets := ts\<rparr>) ev = fetchPretixItemsInfoByEvent d ev"
  by (simp add: fetchPretixItemsInfoByEvent_def)

lemma newTickets_keys:
  assumes "t \<in> set (newTickets existingTickets tks)" and "r \<in> set existingTickets"
  shows "getEmailAndItemKey r \<noteq> getEmailAndItemKey t"
proof
  assume "getEmailAndItemKey r = getEmailAndItemKey t"
  then have "getEmailAndItemKey t \<in> getEmailAndItemKey ` set existingTickets"
    using assms(2) by (metis imageI)
  with assms(1) show False
    by (simp add: newTickets_def ticketsToMapByEmailAndItem_def has_newMap)
qed

text \<open>
  Claim C3, amended. \<open>saveTickets\<close> preserves the invariant whenever the projected tickets
  that it inserts (those whose key is not stored yet) have pairwise distinct keys; this
  is so in particular when all projected tickets have pairwise distinct keys.
\<close>

theorem saveTickets_preserves_invariant:
  assumes "ticketInvariant d (config_id event)"
    and "\<forall>pretixOrders.
           fetchOrders api (orgURL organizer) (token organizer) (eventID event) = Inr pretixOrders \<longrightarrow>
           distinct (map getEmailAndItemKey
             (newTickets (fetchDevconnectPretixTicketsByEvent d (config_id event))
                (fst (ordersToDevconnectTickets pretixOrders
                        (fetchPretixItemsInfoByEvent d (config_id event))))))"
  shows "ticketInvariant (fst (snd (saveTickets api organizer event d))) (config_id event)"
proof (cases "fetchOrders api (orgURL organizer) (token organizer) (eventID event)")
  case (Inl e)
  then show ?thesis
    using assms(1) by (simp add: saveTickets_failed)
next
  case (Inr pretixOrders)
  define items where "items = fetchPretixItemsInfoByEvent d (config_id event)"
  define E where "E = fetchDevconnectPretixTicketsByEvent d (config_id event)"
  define tks where "tks = fst (ordersToDevconnectTickets pretixOrders items)"
  have E: "E = filter (inEvent items) (tickets d)"
    by (simp add: E_def items_def fetch_tickets_inEvent)
  have dE: "distinct (map getEmailAndItemKey E)"
    using assms(1) by (simp add: ticketInvariant_def E_def)
  have dN: "distinct (map getEmailAndItemKey (newTickets E tks))"
    using assms(2) Inr by (simp add: E_def tks_def items_def)
  have dN': "distinct (map getEmailAndItemKey (filter (inEvent items) (newTickets E tks)))"
    using dN by (rule distinct_map_filter)
  have disj: "getEmailAndItemKey ` set E \<inter>
              getEmailAndItemKey ` set (filter (inEvent items) (newTickets E tks)) = {}"
    using newTickets_keys [of _ E tks] by fastforce
  have "distinct (map getEmailAndItemKey (filter (inEvent items) (tickets d @ newTickets E tks)))"
    using dE dN' disj by (simp add: E [symmetric])
  then have dist: "distinct (map getEmailAndItemKey
       (filter (\<lambda>x. getEmailAndItemKey x \<notin> getEmailAndItemKey ` set (removedTickets E tks))
          (filter (inEvent items) (tickets d @ newTickets E tks))))"
    by (rule distinct_map_filter)
  have after: "fetchDevconnectPretixTicketsByEvent (fst (snd (saveTickets api organizer event d)))
        (config_id event) =
      filter (inEvent items)
        (map (softDeleteRows (removedTickets E tks) \<circ> updateRows (updatedTickets E tks))
           (tickets d @ newTickets E tks))"
    by (simp add: saveTickets_fetched [OF Inr] fetch_tickets_inEvent items_def E_def tks_def)
  have "map getEmailAndItemKey
          (fetchDevconnectPretixTicketsByEvent (fst (snd (saveTickets api organizer event d)))
             (config_id event)) =
        map getEmailAndItemKey
          (filter (\<lambda>x. getEmailAndItemKey x \<notin> getEmailAndItemKey ` set (removedTickets E tks))
             (filter (inEvent items) (tickets d @ newTickets E tks)))"
    unfolding after by (rule keys_after_rows)
  with dist show ?thesis
    by (simp add: ticketInvariant_def)
qed

lemma newMap_Cons:
  "newMap (map (\<lambda>x. (k x, x)) (x # xs)) key =
     (case newMap (map (\<lambda>x. (k x, x)) xs) key of
        Some y \<Rightarrow> Some y
      | None \<Rightarrow> if k x = key then Some x else None)"
  by (auto simp: newMap_def map_add_def split: option.splits)

lemma newMap_Nil [simp]: "newMap [] key = None"
  by (simp add: newMap_def)

lemma newMap_append:
  "newMap (map (\<lambda>x. (k x, x)) (xs @ ys)) key =
     (case newMap (map (\<lambda>x. (k x, x)) ys) key of
        Some y \<Rightarrow> Some y
      | None \<Rightarrow> newMap (map (\<lambda>x. (k x, x)) xs) key)"
  by (simp add: newMap_def map_add_def split: option.splits)

lemma newMap_map_rows:
  assumes "\<And>x. k (f x) = k x"
  shows "newMap (map (\<lambda>x. (k x, x)) (map f xs)) key =
         map_option f (newMap (map (\<lambda>x. (k x, x)) xs) key)"
proof (induction xs)
  case Nil
  then show ?case by simp
next
  case (Cons x xs)
  have "newMap (map (\<lambda>x. (k x, x)) (map f (x # xs))) key =
        newMap (map (\<lambda>x. (k x, x)) (f x # map f xs)) key"
    by simp
  also have "\<dots> = (case newMap (map (\<lambda>x. (k x, x)) (map f xs)) key of
        Some y \<Rightarrow> Some y
      | None \<Rightarrow> if k (f x) = key then Some (f x) else None)"
    by (rule newMap_Cons)
  also have "\<dots> = map_option f (newMap (map (\<lambda>x. (k x, x)) (x # xs)) key)"
    unfolding Cons.IH newMap_Cons [of k x xs key]
    by (simp add: assms split: option.splits)
  finally show ?case .
qed

lemma newMap_filter_key:
  assumes "\<And>x. x \<in> set xs \<Longrightarrow> k x = key \<Longrightarrow> Q x"
  shows "newMap (map (\<lambda>x. (k x, x)) (filter Q xs)) key = newMap (map (\<lambda>x. (k x, x)) xs) key"
  using assms
proof (induction xs)
  case Nil
  then show ?case by simp
next
  case (Cons x xs)
  have IH: "newMap (map (\<lambda>x. (k x, x)) (filter Q xs)) key = newMap (map (\<lambda>x. (k x, x)) xs) key"
    using Cons.prems by (intro Cons.IH) auto
  show ?case
  proof (cases "Q x")
    case True
    then have "filter Q (x # xs) = x # filter Q xs" by simp
    then show ?thesis
      by (simp only: newMap_Cons IH)
  next
    case False
    then have ne: "k x \<noteq> key" using Cons.prems [of x] by auto
    from False have "filter Q (x # xs) = filter Q xs" by simp
    then show ?thesis
      using ne by (simp only: newMap_Cons [of k x xs key] IH) (simp split: option.splits)
  qed
qed

lemma key_full_name_update [simp]:
  "getEmailAndItemKey (r\<lparr>full_name := n\<rparr>) = getEmailAndItemKey r"
  by (simp add: getEmailAndItemKey_def)

lemma updateRows_Cons:
  "updateRows (u # us) r =
     updateRows us (if getEmailAndItemKey r = getEmailAndItemKey u
                    then r\<lparr>full_name := full_name u\<rparr> else r)"
  by (simp add: updateRows_def)

lemma updateRows_id:
  "getEmailAndItemKey r \<notin> getEmailAndItemKey ` set us \<Longrightarrow> updateRows us r = r"
proof (induction us)
  case Nil
  then show ?case by (simp add: updateRows_def)
next
  case (Cons u us)
  then show ?case by (simp add: updateRows_Cons)
qed

lemma updateRows_name:
  assumes "\<And>u. u \<in> set us \<Longrightarrow> getEmailAndItemKey u = getEmailAndItemKey r \<Longrightarrow> full_name u = n"
    and "full_name r = n \<or> getEmailAndItemKey r \<in> getEmailAndItemKey ` set us"
  shows "full_name (updateRows us r) = n"
  using assms
proof (induction us arbitrary: r)
  case Nil
  then show ?case by (simp add: updateRows_def)
next
  case (Cons u us)
  show ?case
  proof (cases "getEmailAndItemKey r = getEmailAndItemKey u")
    case True
    then have n: "full_name u = n" using Cons.prems(1) [of u] by simp
    have "full_name (updateRows us (r\<lparr>full_name := full_name u\<rparr>)) = n"
    proof (rule Cons.IH)
      show "full_name (r\<lparr>full_name := full_name u\<rparr>) = n \<or>
            getEmailAndItemKey (r\<lparr>full_name := full_name u\<rparr>) \<in> getEmailAndItemKey ` set us"
        using n by simp
    next
      fix v assume "v \<in> set us"
        "getEmailAndItemKey v = getEmailAndItemKey (r\<lparr>full_name := full_name u\<rparr>)"
      then show "full_name v = n" using Cons.prems(1) [of v] by simp
    qed
    with True show ?thesis by (simp add: updateRows_Cons)
  next
    case False
    have "full_name (updateRows us r) = n"
    proof (rule Cons.IH)
      show "full_name r = n \<or> getEmailAndItemKey r \<in> getEmailAndItemKey ` set us"
        using Cons.prems(2) False by auto
    next
      fix v assume "v \<in> set us" "getEmailAndItemKey v = getEmailAndItemKey r"
      then show "full_name v = n" using Cons.prems(1) [of v] by simp
    qed
    with False show ?thesis by (simp add: updateRows_Cons)
  qed
qed


lemma in_newTickets:
  "t \<in> set (newTickets E tks) \<longleftrightarrow>
     t \<in> set tks \<and> getEmailAndItemKey t \<notin> getEmailAndItemKey ` set E"
  by (auto simp: newTickets_def ticketsToMapByEmailAndItem_def has_newMap)

lemma in_removedTickets:
  "r \<in> set (removedTickets E tks) \<longleftrightarrow>
     r \<in> set E \<and> getEmailAndItemKey r \<notin> getEmailAndItemKey ` set tks"
  by (auto simp: removedTickets_def ticketsToMapByEmailAndItem_def has_newMap)

lemma in_updatedTickets:
  "u \<in> set (updatedTickets E tks) \<longleftrightarrow>
     u \<in> set tks \<and>
     (\<exists>r. ticketsToMapByEmailAndItem E (getEmailAndItemKey u) = Some r \<and> pretixTicketsDifferent r u)"
  by (auto simp: updatedTickets_def has_def)

lemma lookup_member:
  "ticketsToMapByEmailAndItem E key = Some r \<Longrightarrow> r \<in> set E \<and> getEmailAndItemKey r = key"
  unfolding ticketsToMapByEmailAndItem_def by (rule newMap_Some_member)

lemma second_run_lists:
  fixes items :: "PretixItemInfo list" and T tks :: "DevconnectPretixTicket list"
  defines "E \<equiv> filter (inEvent items) T"
  defines "F \<equiv> softDeleteRows (removedTickets E tks) \<circ> updateRows (updatedTickets E tks)"
  defines "E1 \<equiv> filter (inEvent items) (map F (T @ newTickets E tks))"
  assumes P: "\<And>t. t \<in> set tks \<Longrightarrow> inEvent items t"
    and H: "\<And>t u. t \<in> set tks \<Longrightarrow> u \<in> set tks \<Longrightarrow>
              getEmailAndItemKey t = getEmailAndItemKey u \<Longrightarrow> full_name t = full_name u"
  shows "newTickets E1 tks = []" and "updatedTickets E1 tks = []" and "removedTickets E1 tks = []"
proof -
  let ?K = getEmailAndItemKey
  let ?new = "newTickets E tks" and ?upd = "updatedTickets E tks" and ?rem = "removedTickets E tks"
  let ?keep = "\<lambda>x. ?K x \<notin> ?K ` set ?rem"
  let ?rows = "E @ filter (inEvent items) ?new"
  have E1: "E1 = map F (filter ?keep ?rows)"
    unfolding E1_def F_def E_def by (simp add: fetch_after_rows)
  have keyF [simp]: "?K (F x) = ?K x" for x
    by (simp add: F_def)
  have nameF: "full_name (F x) = full_name (updateRows ?upd x)" for x
    by (simp add: F_def)
  have keep_tks: "?keep x" if "?K x \<in> ?K ` set tks" for x
    using that by (auto simp: in_removedTickets)
  have new_rows: "filter (inEvent items) ?new = ?new"
    using P by (auto simp: in_newTickets intro!: filter_True)

  text \<open>Every projected key is stored after the first run.\<close>
  have stored: "?K t \<in> ?K ` set E1" if t: "t \<in> set tks" for t
  proof (cases "?K t \<in> ?K ` set E")
    case True
    then obtain r where r: "r \<in> set E" "?K r = ?K t" by auto
    then have "?keep r" using t keep_tks [of r] by simp
    with r have "F r \<in> set E1" by (simp add: E1)
    then have "?K (F r) \<in> ?K ` set E1" by (rule imageI)
    with r show ?thesis by simp
  next
    case False
    with t have "t \<in> set ?new" by (simp add: in_newTickets)
    moreover have "?keep t" using t keep_tks [of t] by simp
    ultimately have "F t \<in> set E1" by (simp add: E1 new_rows)
    then have "?K (F t) \<in> ?K ` set E1" by (rule imageI)
    then show ?thesis by simp
  qed
  then show "newTickets E1 tks = []"
    by (simp add: newTickets_def ticketsToMapByEmailAndItem_def has_newMap filter_empty_conv)

  text \<open>Every key stored after the first run is a projected key.\<close>
  have "?K r \<in> ?K ` set tks" if "r \<in> set E1" for r
  proof -
    from that obtain x where x: "x \<in> set ?rows" "?keep x" "r = F x"
      by (auto simp: E1)
    have "?K x \<in> ?K ` set tks"
    proof (cases "x \<in> set E")
      case True
      show ?thesis
      proof (rule ccontr)
        assume "?K x \<notin> ?K ` set tks"
        with True have "x \<in> set ?rem" by (simp add: in_removedTickets)
        then have "?K x \<in> ?K ` set ?rem" by (rule imageI)
        with x(2) show False by simp
      qed
    next
      case False
      with x(1) have "x \<in> set ?new" by simp
      then have "x \<in> set tks" by (simp add: in_newTickets)
      then show ?thesis by (rule imageI)
    qed
    with x(3) show ?thesis by simp
  qed
  then show "removedTickets E1 tks = []"
    by (simp add: removedTickets_def ticketsToMapByEmailAndItem_def has_newMap filter_empty_conv)

  text \<open>The row found for a projected key after the first run carries the projected name.\<close>
  have same: "\<not> pretixTicketsDifferent r t"
    if t: "t \<in> set tks" and r: "ticketsToMapByEmailAndItem E1 (?K t) = Some r" for t r
  proof -
    have "ticketsToMapByEmailAndItem E1 (?K t) =
          map_option F (ticketsToMapByEmailAndItem (filter ?keep ?rows) (?K t))"
      unfolding ticketsToMapByEmailAndItem_def E1 by (rule newMap_map_rows) simp
    also have "ticketsToMapByEmailAndItem (filter ?keep ?rows) (?K t) =
               ticketsToMapByEmailAndItem ?rows (?K t)"
      unfolding ticketsToMapByEmailAndItem_def
    proof (rule newMap_filter_key)
      fix x assume "x \<in> set ?rows" "?K x = ?K t"
      then show "?keep x" using t keep_tks [of x] by simp
    qed
    also have "ticketsToMapByEmailAndItem ?rows (?K t) =
       (case ticketsToMapByEmailAndItem ?new (?K t) of
          Some y \<Rightarrow> Some y
        | None \<Rightarrow> ticketsToMapByEmailAndItem E (?K t))"
      unfolding ticketsToMapByEmailAndItem_def new_rows by (rule newMap_append)
    finally have look: "Some r = map_option F
       (case ticketsToMapByEmailAndItem ?new (?K t) of
          Some y \<Rightarrow> Some y
        | None \<Rightarrow> ticketsToMapByEmailAndItem E (?K t))"
      using r by simp
    have name: "full_name r = full_name t"
    proof (cases "ticketsToMapByEmailAndItem ?new (?K t)")
      case (Some y)
      then have y: "y \<in> set ?new" "?K y = ?K t" using lookup_member [of ?new "?K t" y] by simp_all
      then have ytks: "y \<in> set tks" and yE: "?K y \<notin> ?K ` set E" by (simp_all add: in_newTickets)
      have "?K y \<notin> ?K ` set ?upd"
      proof
        assume "?K y \<in> ?K ` set ?upd"
        then obtain u where "u \<in> set ?upd" "?K u = ?K y" by auto
        then obtain r' where "ticketsToMapByEmailAndItem E (?K y) = Some r'"
          by (auto simp: in_updatedTickets)
        then have "r' \<in> set E \<and> ?K r' = ?K y" by (rule lookup_member)
        then have "?K y \<in> ?K ` set E" by (metis imageI)
        with yE show False by simp
      qed
      then have "updateRows ?upd y = y" by (rule updateRows_id)
      moreover have "r = F y" using look Some by simp
      ultimately have "full_name r = full_name y" by (simp add: nameF)
      also have "\<dots> = full_name t" using H [OF ytks t y(2)] .
      finally show ?thesis .
    next
      case None
      with look obtain r0 where r0: "ticketsToMapByEmailAndItem E (?K t) = Some r0" and rF: "r = F r0"
        by (cases "ticketsToMapByEmailAndItem E (?K t)") auto
      have k0: "?K r0 = ?K t" using lookup_member [OF r0] by simp
      have "full_name (updateRows ?upd r0) = full_name t"
      proof (rule updateRows_name)
        fix u assume "u \<in> set ?upd" "?K u = ?K r0"
        then have "u \<in> set tks" "?K u = ?K t" using k0 by (simp_all add: in_updatedTickets)
        then show "full_name u = full_name t" using H [of u t] t by simp
      next
        show "full_name r0 = full_name t \<or> ?K r0 \<in> ?K ` set ?upd"
        proof (cases "pretixTicketsDifferent r0 t")
          case True
          with t r0 have "t \<in> set ?upd" by (simp add: in_updatedTickets)
          then have "?K t \<in> ?K ` set ?upd" by (rule imageI)
          with k0 show ?thesis by simp
        next
          case False
          then show ?thesis by (simp add: pretixTicketsDifferent_def)
        qed
      qed
      with rF show ?thesis by (simp add: nameF)
    qed
    have "?K r = ?K t"
      using lookup_member [OF r] by simp
    then have "devconnect_pretix_items_info_id r = devconnect_pretix_items_info_id t"
      by (simp add: getEmailAndItemKey_def)
    with name show ?thesis by (simp add: pretixTicketsDifferent_def)
  qed
  show "updatedTickets E1 tks = []"
    unfolding updatedTickets_def filter_empty_conv
  proof
    fix t assume "t \<in> set (filter (\<lambda>t. has (ticketsToMapByEmailAndItem E1) (?K t)) tks)"
    then have t: "t \<in> set tks" and "has (ticketsToMapByEmailAndItem E1) (?K t)" by simp_all
    then obtain r where r: "ticketsToMapByEmailAndItem E1 (?K t) = Some r"
      by (auto simp: has_def)
    with same [OF t r]
    show "\<not> pretixTicketsDifferent (the (ticketsToMapByEmailAndItem E1 (?K t))) t" by simp
  qed
qed

lemma projected_inEvent:
  assumes "t \<in> set (fst (ordersToDevconnectTickets orders items))"
  shows "inEvent items t"
proof -
  have "existingItem \<in> set items" if "itemsInfoByItemID items k = Some existingItem"
    for existingItem k
    using that newMap_Some_member [of item_id items k existingItem]
    by (simp add: itemsInfoByItemID_def)
  with projection_members [OF assms] show ?thesis
    by (auto simp: inEvent_def)
qed

lemma updateRows_Nil [simp]: "updateRows [] = id"
  by (rule ext) (simp add: updateRows_def)

lemma softDeleteRows_Nil [simp]: "softDeleteRows [] = id"
  by (rule ext) (simp add: softDeleteRows_def)

text \<open>
  Claim C5, amended. If projected tickets that share a key also share the full name (in
  particular if the projected tickets have pairwise distinct keys), then running
  \<open>saveTickets\<close> again on the database the first run left, with the same orders and the
  same item rows, returns the same flag, leaves the database as it is and has the order
  fetch as its only effect: no insert, no update, no soft-delete.
\<close>

theorem second_run_changes_nothing:
  assumes "\<forall>pretixOrders.
     fetchOrders api (orgURL organizer) (token organizer) (eventID event) = Inr pretixOrders \<longrightarrow>
     (\<forall>t \<in> set (fst (ordersToDevconnectTickets pretixOrders
                       (fetchPretixItemsInfoByEvent d (config_id event)))).
      \<forall>u \<in> set (fst (ordersToDevconnectTickets pretixOrders
                       (fetchPretixItemsInfoByEvent d (config_id event)))).
        getEmailAndItemKey t = getEmailAndItemKey u \<longrightarrow> full_name t = full_name u)"
  shows "saveTickets api organizer event (fst (snd (saveTickets api organizer event d))) =
           (fst (saveTickets api organizer event d),
            fst (snd (saveTickets api organizer event d)),
            [ApiFetchOrders (orgURL organizer) (token organizer) (eventID event)])"
proof (cases "fetchOrders api (orgURL organizer) (token organizer) (eventID event)")
  case (Inl e)
  then show ?thesis by (simp add: saveTickets_failed)
next
  case (Inr pretixOrders)
  define items where "items = fetchPretixItemsInfoByEvent d (config_id event)"
  define tks where "tks = fst (ordersToDevconnectTickets pretixOrders items)"
  define E where "E = filter (inEvent items) (tickets d)"
  define F where "F = softDeleteRows (removedTickets E tks) \<circ> updateRows (updatedTickets E tks)"
  define d1 where "d1 = d\<lparr>tickets := map F (tickets d @ newTickets E tks)\<rparr>"
  define E1 where "E1 = filter (inEvent items) (map F (tickets d @ newTickets E tks))"
  have first: "saveTickets api organizer event d =
      (True, d1,
       ApiFetchOrders (orgURL organizer) (token organizer) (eventID event) #
       map InsertTicket (newTickets E tks) @ map UpdateTicket (updatedTickets E tks) @
       map SoftDeleteTicket (removedTickets E tks))"
    by (simp add: saveTickets_fetched [OF Inr] fetch_tickets_inEvent d1_def F_def E_def tks_def
        items_def)
  have items1: "fetchPretixItemsInfoByEvent d1 (config_id event) = items"
    by (simp add: d1_def items_def)
  have fetch1: "fetchDevconnectPretixTicketsByEvent d1 (config_id event) = E1"
    by (simp add: fetch_tickets_inEvent items1) (simp add: d1_def E1_def)
  have P: "inEvent items t" if "t \<in> set tks" for t
    using that unfolding tks_def by (rule projected_inEvent)
  have H: "full_name t = full_name u"
    if "t \<in> set tks" "u \<in> set tks" "getEmailAndItemKey t = getEmailAndItemKey u" for t u
  proof -
    from assms Inr have "\<forall>t \<in> set tks. \<forall>u \<in> set tks.
        getEmailAndItemKey t = getEmailAndItemKey u \<longrightarrow> full_name t = full_name u"
      unfolding tks_def items_def by blast
    with that show ?thesis by blast
  qed
  have none: "newTickets E1 tks = []" "updatedTickets E1 tks = []" "removedTickets E1 tks = []"
    unfolding E1_def F_def E_def by (rule second_run_lists [OF P H]; assumption)+
  have second: "saveTickets api organizer event d1 =
      (True, d1, [ApiFetchOrders (orgURL organizer) (token organizer) (eventID event)])"
    by (simp add: saveTickets_fetched [OF Inr] items1 fetch1 tks_def [symmetric] none)
  show ?thesis
    by (simp add: first second)
qed

section \<open>The ticket phase on example data\<close>

lemma ex_items_fetch [simp]: "fetchPretixItemsInfoByEvent (exDb T) 1 = exItems"
  by (simp add: fetchPretixItemsInfoByEvent_def exDb_def exItems_def)

lemma ex_tickets_fetch:
  "fetchDevconnectPretixTicketsByEvent (exDb T) 1 =
     filter (\<lambda>t. \<not> is_deleted t \<and> devconnect_pretix_items_info_id t = 7) T"
  by (simp add: fetchDevconnectPretixTicketsByEvent_def) (simp add: exDb_def exItems_def)

lemma ex_api_orders [simp]: "fetchOrders (exApi nm catalog orders) a b c = Inr orders"
  by (simp add: exApi_def)

lemma ex_config [simp]: "config_id (exEvent active) = 1"
  by (simp add: exEvent_def)

lemma ex_tickets_update [simp]: "(exDb T)\<lparr>tickets := T'\<rparr> = exDb T'"
  by (simp add: exDb_def)

lemma ex_projection_two:
  "fst (ordersToDevconnectTickets [exOrder ''p'' [exPosition 1 a n, exPosition 1 b m]] exItems) =
     [exTicket (toLowerCase (orElse a ''Buyer@Y.com'')) n,
      exTicket (toLowerCase (orElse b ''Buyer@Y.com'')) m]"
  by (simp add: ex_defs exTicket_def ordersToDevconnectTickets_def itemsInfoByItemID_def
      newMap_def toString_def digitsOfNat.simps)

lemma ex_saveTickets:
  fixes T :: "DevconnectPretixTicket list"
  defines "E \<equiv> filter (\<lambda>t. \<not> is_deleted t \<and> devconnect_pretix_items_info_id t = 7) T"
  assumes tks: "fst (ordersToDevconnectTickets orders exItems) = tks"
  shows "saveTickets (exApi nm catalog orders) exOrganizer (exEvent active) (exDb T) =
     (True,
      exDb (map (softDeleteRows (removedTickets E tks) \<circ> updateRows (updatedTickets E tks))
              (T @ newTickets E tks)),
      ApiFetchOrders ''organizer-url'' ''token'' ''event-a'' #
      map InsertTicket (newTickets E tks) @ map UpdateTicket (updatedTickets E tks) @
      map SoftDeleteTicket (removedTickets E tks))"
proof -
  have fo: "fetchOrders (exApi nm catalog orders) (orgURL exOrganizer) (token exOrganizer)
          (eventID (exEvent active)) = Inr orders"
    by simp
  have a: "fetchDevconnectPretixTicketsByEvent (exDb T) (config_id (exEvent active)) = E"
    by (simp add: ex_tickets_fetch E_def)
  have b: "fst (ordersToDevconnectTickets orders
                  (fetchPretixItemsInfoByEvent (exDb T) (config_id (exEvent active)))) = tks"
    by (simp add: tks)
  have c: "orgURL exOrganizer = ''organizer-url''" "token exOrganizer = ''token''"
    "eventID (exEvent active) = ''event-a''"
    by (simp_all add: exOrganizer_def exEvent_def)
  have d: "tickets (exDb T) = T"
    by (simp add: exDb_def)
  show ?thesis
    unfolding saveTickets_fetched [OF fo] a b c d ex_tickets_update ..
qed

lemma ex_projection_fallbacks:
  "fst (ordersToDevconnectTickets
          [exOrder ''p'' [exPosition 1 None ''Ann'', exPosition 1 None ''Bob'']] exItems) =
     [exTicket ''buyer@y.com'' ''Ann'', exTicket ''buyer@y.com'' ''Bob'']"
  by (simp add: ex_projection_two) (simp add: toLowerCase_def toLowerChar_def orElse_def truthy_def)

lemma ex_projection_mixed:
  "fst (ordersToDevconnectTickets
          [exOrder ''p'' [exPosition 1 (Some ''X@Y.com'') ''Anna'', exPosition 1 None ''Bob'']]
          exItems) =
     [exTicket ''x@y.com'' ''Anna'', exTicket ''buyer@y.com'' ''Bob'']"
  by (simp add: ex_projection_two) (simp add: toLowerCase_def toLowerChar_def orElse_def truthy_def)

lemmas ticket_eval = newTickets_def updatedTickets_def removedTickets_def
  ticketsToMapByEmailAndItem_def getEmailAndItemKey_def pretixTicketsDifferent_def
  has_def newMap_def updateRows_def softDeleteRows_def exTicket_def

lemma ex_first_run_two_fallbacks:
  "fst (snd (saveTickets
           (exApi ''Devconnect'' exCatalog
              [exOrder ''p'' [exPosition 1 None ''Ann'', exPosition 1 None ''Bob'']])
           exOrganizer (exEvent [''1'']) (exDb []))) =
        exDb [exTicket ''buyer@y.com'' ''Ann'', exTicket ''buyer@y.com'' ''Bob'']"
  by (simp add: ex_saveTickets [OF ex_projection_fallbacks]) (simp add: ticket_eval)

text \<open>
  Claim C3, as stated, fails: two positions of one paid order that both fall back to the
  purchaser email and are for the same item give two candidates with one key; on an
  empty ticket table both are inserted.
\<close>

theorem saveTickets_invariant_counterexample:
  "ticketInvariant (exDb []) (config_id (exEvent [''1''])) \<and>
   \<not> ticketInvariant
       (fst (snd (saveTickets
          (exApi ''Devconnect'' exCatalog
             [exOrder ''p'' [exPosition 1 None ''Ann'', exPosition 1 None ''Bob'']])
          exOrganizer (exEvent [''1'']) (exDb []))))
       (config_id (exEvent [''1'']))"
  unfolding ex_first_run_two_fallbacks
  by (simp add: ticketInvariant_def ex_tickets_fetch) (simp add: exTicket_def getEmailAndItemKey_def)

theorem saveTickets_preserves_invariant_witness:
  "ticketInvariant (exDb [exTicket ''x@y.com'' ''Ann'', exTicket ''gone@y.com'' ''Zed''])
     (config_id (exEvent [''1''])) \<and>
   ticketInvariant
     (fst (snd (saveTickets
        (exApi ''Devconnect'' exCatalog
           [exOrder ''p'' [exPosition 1 (Some ''X@Y.com'') ''Anna'', exPosition 1 None ''Bob'']])
        exOrganizer (exEvent [''1''])
        (exDb [exTicket ''x@y.com'' ''Ann'', exTicket ''gone@y.com'' ''Zed'']))))
     (config_id (exEvent [''1'']))"
proof -
  have a: "ticketInvariant (exDb [exTicket ''x@y.com'' ''Ann'', exTicket ''gone@y.com'' ''Zed''])
     (config_id (exEvent [''1'']))"
    by (simp add: ticketInvariant_def ex_tickets_fetch) (simp add: exTicket_def getEmailAndItemKey_def)
  have b: "\<forall>pretixOrders.
     fetchOrders (exApi ''Devconnect'' exCatalog
         [exOrder ''p'' [exPosition 1 (Some ''X@Y.com'') ''Anna'', exPosition 1 None ''Bob'']])
       (orgURL exOrganizer) (token exOrganizer) (eventID (exEvent [''1''])) = Inr pretixOrders \<longrightarrow>
     distinct (map getEmailAndItemKey
       (newTickets
          (fetchDevconnectPretixTicketsByEvent
             (exDb [exTicket ''x@y.com'' ''Ann'', exTicket ''gone@y.com'' ''Zed''])
             (config_id (exEvent [''1''])))
          (fst (ordersToDevconnectTickets pretixOrders
                  (fetchPretixItemsInfoByEvent
                     (exDb [exTicket ''x@y.com'' ''Ann'', exTicket ''gone@y.com'' ''Zed''])
                     (config_id (exEvent [''1''])))))))"
  proof (intro allI impI)
    fix pretixOrders
    assume "fetchOrders (exApi ''Devconnect'' exCatalog
         [exOrder ''p'' [exPosition 1 (Some ''X@Y.com'') ''Anna'', exPosition 1 None ''Bob'']])
       (orgURL exOrganizer) (token exOrganizer) (eventID (exEvent [''1''])) = Inr pretixOrders"
    then have "pretixOrders =
        [exOrder ''p'' [exPosition 1 (Some ''X@Y.com'') ''Anna'', exPosition 1 None ''Bob'']]"
      by simp
    then show "distinct (map getEmailAndItemKey
       (newTickets
          (fetchDevconnectPretixTicketsByEvent
             (exDb [exTicket ''x@y.com'' ''Ann'', exTicket ''gone@y.com'' ''Zed''])
             (config_id (exEvent [''1''])))
          (fst (ordersToDevconnectTickets pretixOrders
                  (fetchPretixItemsInfoByEvent
                     (exDb [exTicket ''x@y.com'' ''Ann'', exTicket ''gone@y.com'' ''Zed''])
                     (config_id (exEvent [''1''])))))))"
      by (simp add: ex_projection_mixed ex_tickets_fetch)
         (simp add: exTicket_def newTickets_def ticketsToMapByEmailAndItem_def
            getEmailAndItemKey_def has_def newMap_def)
  qed
  from a saveTickets_preserves_invariant [OF a b] show ?thesis by simp
qed

text \<open>
  Claim C5, as stated, fails: after the first run has inserted the two tickets with one
  key and different names, the second run finds the name of the row stored last (Bob)
  different from the first candidate's and issues an update.
\<close>

theorem second_run_counterexample:
  "filter isWrite
     (snd (snd (saveTickets
        (exApi ''Devconnect'' exCatalog
           [exOrder ''p'' [exPosition 1 None ''Ann'', exPosition 1 None ''Bob'']])
        exOrganizer (exEvent [''1''])
        (fst (snd (saveTickets
           (exApi ''Devconnect'' exCatalog
              [exOrder ''p'' [exPosition 1 None ''Ann'', exPosition 1 None ''Bob'']])
           exOrganizer (exEvent [''1'']) (exDb []))))))) =
   [UpdateTicket (exTicket ''buyer@y.com'' ''Ann'')]"
  unfolding ex_first_run_two_fallbacks
  by (simp add: ex_saveTickets [OF ex_projection_fallbacks]) (simp add: ticket_eval)

theorem second_run_changes_nothing_witness:
  "fst (snd (saveTickets
      (exApi ''Devconnect'' exCatalog
         [exOrder ''p'' [exPosition 1 (Some ''X@Y.com'') ''Anna'', exPosition 1 None ''Bob'']])
      exOrganizer (exEvent [''1''])
      (exDb [exTicket ''x@y.com'' ''Ann'', exTicket ''gone@y.com'' ''Zed'']))) =
     exDb [exTicket ''x@y.com'' ''Anna'', (exTicket ''gone@y.com'' ''Zed'')\<lparr>is_deleted := True\<rparr>,
           exTicket ''buyer@y.com'' ''Bob''] \<and>
   saveTickets
      (exApi ''Devconnect'' exCatalog
         [exOrder ''p'' [exPosition 1 (Some ''X@Y.com'') ''Anna'', exPosition 1 None ''Bob'']])
      exOrganizer (exEvent [''1''])
      (exDb [exTicket ''x@y.com'' ''Anna'', (exTicket ''gone@y.com'' ''Zed'')\<lparr>is_deleted := True\<rparr>,
             exTicket ''buyer@y.com'' ''Bob'']) =
     (True,
      exDb [exTicket ''x@y.com'' ''Anna'', (exTicket ''gone@y.com'' ''Zed'')\<lparr>is_deleted := True\<rparr>,
            exTicket ''buyer@y.com'' ''Bob''],
      [ApiFetchOrders ''organizer-url'' ''token'' ''event-a''])"
proof -
  let ?api = "exApi ''Devconnect'' exCatalog
         [exOrder ''p'' [exPosition 1 (Some ''X@Y.com'') ''Anna'', exPosition 1 None ''Bob'']]"
  let ?start = "exDb [exTicket ''x@y.com'' ''Ann'', exTicket ''gone@y.com'' ''Zed'']"
  have first: "saveTickets ?api exOrganizer (exEvent [''1'']) ?start =
     (True,
      exDb [exTicket ''x@y.com'' ''Anna'', (exTicket ''gone@y.com'' ''Zed'')\<lparr>is_deleted := True\<rparr>,
            exTicket ''buyer@y.com'' ''Bob''],
      [ApiFetchOrders ''organizer-url'' ''token'' ''event-a'',
       InsertTicket (exTicket ''buyer@y.com'' ''Bob''),
       UpdateTicket (exTicket ''x@y.com'' ''Anna''),
       SoftDeleteTicket (exTicket ''gone@y.com'' ''Zed'')])"
    by (simp add: ex_saveTickets [OF ex_projection_mixed]) (simp add: ticket_eval)
  have hyp: "\<forall>pretixOrders.
     fetchOrders ?api (orgURL exOrganizer) (token exOrganizer) (eventID (exEvent [''1''])) =
       Inr pretixOrders \<longrightarrow>
     (\<forall>t \<in> set (fst (ordersToDevconnectTickets pretixOrders
                        (fetchPretixItemsInfoByEvent ?start (config_id (exEvent [''1'']))))).
      \<forall>u \<in> set (fst (ordersToDevconnectTickets pretixOrders
                        (fetchPretixItemsInfoByEvent ?start (config_id (exEvent [''1'']))))).
        getEmailAndItemKey t = getEmailAndItemKey u \<longrightarrow> full_name t = full_name u)"
  proof (intro allI impI)
    fix pretixOrders
    assume "fetchOrders ?api (orgURL exOrganizer) (token exOrganizer) (eventID (exEvent [''1''])) =
       Inr pretixOrders"
    then have po: "pretixOrders =
        [exOrder ''p'' [exPosition 1 (Some ''X@Y.com'') ''Anna'', exPosition 1 None ''Bob'']]"
      by simp
    show "\<forall>t \<in> set (fst (ordersToDevconnectTickets pretixOrders
                        (fetchPretixItemsInfoByEvent ?start (config_id (exEvent [''1'']))))).
      \<forall>u \<in> set (fst (ordersToDevconnectTickets pretixOrders
                        (fetchPretixItemsInfoByEvent ?start (config_id (exEvent [''1'']))))).
        getEmailAndItemKey t = getEmailAndItemKey u \<longrightarrow> full_name t = full_name u"
      unfolding po by (simp add: ex_projection_mixed) (simp add: ticket_eval)
  qed
  have c: "orgURL exOrganizer = ''organizer-url''" "token exOrganizer = ''token''"
    "eventID (exEvent [''1'']) = ''event-a''"
    by (simp_all add: exOrganizer_def exEvent_def)
  from second_run_changes_nothing [OF hyp] show ?thesis
    unfolding first c by simp
qed

section \<open>The change-set in the two phases\<close>







end
